theory Spec2Isabelle
  imports Main "HOL-Library.Sublist"
begin

section \<open>The Gilts-in-Issue spreadsheet reformatter\<close>

text \<open>
  A shallow embedding of \<^verbatim>\<open>format_gilts_csv\<close>, the function that turns the first
  sheet of a downloaded workbook into a CSV file. It exists twice in the repository:
  in \<^verbatim>\<open>src/format_gilts_csv.py\<close> (lines 14-149) and in
  \<^verbatim>\<open>src/download_and_format_gilts.py\<close> (lines 230-365). Both are embedded below.

  What the Python libraries and the operating system decide (whether a directory can
  be made, whether a path exists, what xlrd reads from a file, what the clock says,
  how \<^verbatim>\<open>datetime\<close> parses and prints a date) is a field of the record \<open>env\<close>.
  What the function changes (the files under the output directory and the text printed
  on standard output) is the record \<open>world\<close>, passed in and returned.
\<close>

subsection \<open>Cells and strings\<close>

text \<open>
  \<^verbatim>\<open>sheet.cell_value\<close> returns a Python \<^verbatim>\<open>str\<close> for a text, empty or blank cell
  and a number (a \<^verbatim>\<open>float\<close>, or an \<^verbatim>\<open>int\<close> for boolean and error cells)
  otherwise. The program observes a number in two ways only, through \<^verbatim>\<open>str(v)\<close> and
  through its truth value \<^verbatim>\<open>not v\<close>, so a numeric cell carries exactly these two:
  its \<^verbatim>\<open>str\<close> rendering and whether it is non-zero.
  Characters are code points below 256.
\<close>

datatype cell = Text string | Number string bool

fun str :: "cell \<Rightarrow> string" where
  "str (Text s) = s"
| "str (Number s nz) = s"

text \<open>Python truthiness: an empty string and a zero are false.\<close>

fun truthy :: "cell \<Rightarrow> bool" where
  "truthy (Text s) = (s \<noteq> [])"
| "truthy (Number s nz) = nz"

text \<open>The characters \<^verbatim>\<open>str.strip()\<close> removes, among the code points below 256.\<close>

definition whitespace :: "char list" where
  "whitespace = [CHR 0x09, CHR 0x0A, CHR 0x0B, CHR 0x0C, CHR 0x0D, CHR 0x1C, CHR 0x1D,
                 CHR 0x1E, CHR 0x1F, CHR 0x20, CHR 0x85, CHR 0xA0]"

definition is_space :: "char \<Rightarrow> bool" where
  "is_space c = (c \<in> set whitespace)"

definition strip :: "string \<Rightarrow> string" where
  "strip s = rev (dropWhile is_space (rev (dropWhile is_space s)))"

text \<open>\<^verbatim>\<open>s.split(c)\<close> for a one-character separator: never the empty list.\<close>

fun split :: "char \<Rightarrow> string \<Rightarrow> string list" where
  "split c [] = [[]]"
| "split c (x # xs) =
     (if x = c then [] # split c xs
      else (case split c xs of
              [] \<Rightarrow> [[x]]
            | p # ps \<Rightarrow> (x # p) # ps))"

text \<open>\<^verbatim>\<open>os.path.basename\<close> and \<^verbatim>\<open>os.path.join\<close> of two components, as on POSIX.\<close>

definition basename :: "string \<Rightarrow> string" where
  "basename p = rev (takeWhile (\<lambda>c. c \<noteq> CHR ''/'') (rev p))"

definition path_join :: "string \<Rightarrow> string \<Rightarrow> string" where
  "path_join a b =
     (if b \<noteq> [] \<and> hd b = CHR ''/'' then b
      else if a = [] \<or> last a = CHR ''/'' then a @ b
      else a @ ''/'' @ b)"

subsection \<open>Sheets\<close>

text \<open>
  An xlrd sheet opened with the default \<^verbatim>\<open>ragged_rows=False\<close>: \<open>nrows\<close> rows, each
  padded with empty cells to \<open>ncols\<close> columns. \<^verbatim>\<open>cell_value(i, j)\<close> raises
  \<^verbatim>\<open>IndexError\<close> outside that rectangle.
\<close>

datatype error = IndexError | OSError | XLRDError | NameError

record sheet =
  ncols :: nat
  cells :: "cell list list"

definition nrows :: "sheet \<Rightarrow> nat" where
  "nrows sh = length (cells sh)"

definition cell_at :: "sheet \<Rightarrow> nat \<Rightarrow> nat \<Rightarrow> cell" where
  "cell_at sh i j = (if j < length (cells sh ! i) then cells sh ! i ! j else Text [])"

definition cell_value :: "sheet \<Rightarrow> nat \<Rightarrow> nat \<Rightarrow> error + cell" where
  "cell_value sh i j =
     (if i < nrows sh \<and> j < ncols sh then Inr (cell_at sh i j) else Inl IndexError)"

text \<open>
  A list comprehension whose body may raise: the elements are computed from left to
  right and the first exception ends it.
\<close>

fun collect :: "('a \<Rightarrow> error + 'b) \<Rightarrow> 'a list \<Rightarrow> error + 'b list" where
  "collect f [] = Inr []"
| "collect f (x # xs) =
     (case f x of
        Inl e \<Rightarrow> Inl e
      | Inr y \<Rightarrow> (case collect f xs of Inl e \<Rightarrow> Inl e | Inr ys \<Rightarrow> Inr (y # ys)))"

text \<open>\<^verbatim>\<open>[str(sheet.cell_value(i, j)).strip() for j in range(sheet.ncols)]\<close>\<close>

definition row_values :: "sheet \<Rightarrow> nat \<Rightarrow> error + string list" where
  "row_values sh i =
     collect (\<lambda>j. case cell_value sh i j of Inl e \<Rightarrow> Inl e | Inr v \<Rightarrow> Inr (strip (str v)))
       [0..<ncols sh]"

subsection \<open>The loops of the conversion\<close>

definition group_labels :: "string list" where
  "group_labels = [''Ultra-Short'', ''Short'', ''Medium'', ''Long'']"

text \<open>
  Lines 81-88: the search for the header row. The list is the range the \<^verbatim>\<open>for\<close>
  runs over; \<open>None\<close> is \<^verbatim>\<open>header_row_idx\<close> left at \<^verbatim>\<open>None\<close>.
\<close>

fun find_header :: "sheet \<Rightarrow> nat list \<Rightarrow> error + nat option" where
  "find_header sh [] = Inr None"
| "find_header sh (i # is) =
     (case row_values sh i of
        Inl e \<Rightarrow> Inl e
      | Inr rv \<Rightarrow>
          if ''ISIN Code'' \<in> set rv \<and> ''Redemption Date'' \<in> set rv then Inr (Some i)
          else find_header sh is)"

definition locate_header :: "sheet \<Rightarrow> error + nat option" where
  "locate_header sh = find_header sh [0..<min 15 (nrows sh)]"

text \<open>
  Lines 95-109: the section headers. \<open>acc\<close> is the list \<^verbatim>\<open>section_headers\<close>.
  The second cell is read only when the first is non-empty, as \<^verbatim>\<open>and\<close> evaluates.
\<close>

fun section_loop :: "sheet \<Rightarrow> nat \<Rightarrow> nat list \<Rightarrow> nat list \<Rightarrow> error + nat list" where
  "section_loop sh h [] acc = Inr acc"
| "section_loop sh h (i # is) acc =
     (case cell_value sh i 0 of
        Inl e \<Rightarrow> Inl e
      | Inr c0 \<Rightarrow>
          let cell_value0 = strip (str c0) in
          if cell_value0 \<in> set group_labels then section_loop sh h is acc
          else if cell_value0 \<noteq> [] then
            (case cell_value sh i 1 of
               Inl e \<Rightarrow> Inl e
             | Inr c1 \<Rightarrow>
                 if (\<not> truthy c1 \<and> i > h + 1) \<or> (sublist ''Index-linked'' cell_value0 \<and> i > h + 1)
                 then section_loop sh h is (acc @ [i])
                 else section_loop sh h is acc)
          else if sublist ''Index-linked'' cell_value0 \<and> i > h + 1
          then section_loop sh h is (acc @ [i])
          else section_loop sh h is acc)"

definition section_headers :: "sheet \<Rightarrow> nat \<Rightarrow> error + nat list" where
  "section_headers sh h = section_loop sh h [h + 1..<nrows sh] []"

text \<open>
  \<^verbatim>\<open>writer.writerow(row)\<close> on the open file. \<open>out\<close> is what the file holds so far.
  \<open>lim\<close> is what the environment says of an I/O error on this file (\<open>io_error\<close> below):
  with \<open>Some k\<close> the file takes \<open>k\<close> rows and the next \<^verbatim>\<open>writerow\<close> raises
  \<^verbatim>\<open>OSError\<close>.
\<close>

definition writerow :: "nat option \<Rightarrow> string list list \<Rightarrow> string list \<Rightarrow> error + string list list" where
  "writerow lim out row = (if lim = Some (length out) then Inl OSError else Inr (out @ [row]))"

text \<open>
  Lines 128-140: the data rows. The result is the file's rows, and the exception if one
  ended the loop.
\<close>

fun process_rows ::
    "nat option \<Rightarrow> sheet \<Rightarrow> nat list \<Rightarrow> string list list \<Rightarrow> string list list \<times> error option" where
  "process_rows lim sh [] out = (out, None)"
| "process_rows lim sh (i # is) out =
     (case row_values sh i of
        Inl e \<Rightarrow> (out, Some e)
      | Inr rv \<Rightarrow>
          if \<not> (\<exists>v \<in> set rv. v \<noteq> []) then process_rows lim sh is out
          else (case rv of
                  [] \<Rightarrow> (out, Some IndexError)
                | v0 # _ \<Rightarrow>
                    if v0 \<in> set group_labels then process_rows lim sh is out
                    else (case writerow lim out rv of
                            Inl e \<Rightarrow> (out, Some e)
                          | Inr out' \<Rightarrow> process_rows lim sh is out')))"

text \<open>
  Lines 117-140: everything written between opening the file and closing it. Each row is
  built first and written next.
\<close>

definition write_csv :: "nat option \<Rightarrow> sheet \<Rightarrow> nat \<Rightarrow> string list list \<times> error option" where
  "write_csv lim sh h =
     (case row_values sh 0 of
        Inl e \<Rightarrow> ([], Some e)
      | Inr row1 \<Rightarrow>
     (case writerow lim [] row1 of
        Inl e \<Rightarrow> ([], Some e)
      | Inr out1 \<Rightarrow>
     (case row_values sh 5 of
        Inl e \<Rightarrow> (out1, Some e)
      | Inr row2 \<Rightarrow>
     (case writerow lim out1 row2 of
        Inl e \<Rightarrow> (out1, Some e)
      | Inr out2 \<Rightarrow>
     (case row_values sh h of
        Inl e \<Rightarrow> (out2, Some e)
      | Inr headers \<Rightarrow>
     (case writerow lim out2 headers of
        Inl e \<Rightarrow> (out2, Some e)
      | Inr out3 \<Rightarrow> process_rows lim sh [h + 1..<nrows sh] out3))))))"

text \<open>
  Leaving the \<^verbatim>\<open>with\<close> block closes the file, on the normal way out and on an
  exception. When the environment has an I/O error for the file, closing raises
  \<^verbatim>\<open>OSError\<close> if no \<^verbatim>\<open>writerow\<close> did, and that exception is the one that reaches
  the handler.
\<close>

definition close_file :: "nat option \<Rightarrow> error option \<Rightarrow> error option" where
  "close_file lim raised = (case lim of None \<Rightarrow> raised | Some k \<Rightarrow> Some OSError)"

subsection \<open>The environment and the world\<close>

text \<open>
  The two variants differ in the dialect given to \<^verbatim>\<open>csv.writer\<close>. A CSV file is
  what the writer was given: the quoting policy and the rows in the order written.
  Its bytes are a function of the two.
\<close>

datatype quoting = QUOTE_MINIMAL | QUOTE_ALL

record csv_file =
  quoting :: quoting
  rows :: "string list list"

text \<open>The lines the function prints, one constructor for each \<^verbatim>\<open>print\<close>.\<close>

datatype message =
    NoExcelFiles
  | FileNotFound string
  | Converting string
  | Sheets nat
  | Dimensions nat nat
  | FoundHeader nat nat
  | HeaderNotFound
  | SectionHeaders "nat list"
  | Converted string
  | ErrorConverting error

record env =
  script_dir :: string
    \<comment> \<open>\<^verbatim>\<open>os.path.dirname(os.path.abspath(__file__))\<close>\<close>
  makedirs :: "string \<Rightarrow> bool"
    \<comment> \<open>whether \<^verbatim>\<open>os.makedirs(d, exist_ok=True)\<close> returns; it raises \<^verbatim>\<open>OSError\<close> otherwise\<close>
  glob_imported :: bool
    \<comment> \<open>whether the name \<^verbatim>\<open>glob\<close> is bound in \<^verbatim>\<open>download_and_format_gilts\<close>: the module
        imports it on lines 409-411 only, when it is the main program\<close>
  glob_downloads :: "string list"
    \<comment> \<open>\<^verbatim>\<open>glob.glob\<close> of \<^verbatim>\<open>gilts_in_issue_*.xls*\<close> in the downloads directory\<close>
  getmtime :: "string \<Rightarrow> error + nat"
    \<comment> \<open>\<^verbatim>\<open>os.path.getmtime\<close>, which raises for a path that is gone or dangling\<close>
  exists :: "string \<Rightarrow> bool"
  reformat_date :: "string \<Rightarrow> string option"
    \<comment> \<open>\<^verbatim>\<open>datetime.strptime(s, '%d-%m-%Y').strftime('%Y%m%d')\<close>; \<open>None\<close> is \<^verbatim>\<open>ValueError\<close>\<close>
  today :: string
    \<comment> \<open>\<^verbatim>\<open>datetime.now().strftime('%Y%m%d')\<close>\<close>
  open_workbook :: "string \<Rightarrow> error + sheet list"
  can_write :: "string \<Rightarrow> bool"
    \<comment> \<open>whether \<^verbatim>\<open>open(p, 'w')\<close> returns; it raises \<^verbatim>\<open>OSError\<close> otherwise\<close>
  io_error :: "string \<Rightarrow> nat option"
    \<comment> \<open>\<open>Some k\<close>: an \<^verbatim>\<open>OSError\<close> is raised while the opened file is written or closed,
        and the file is left with the first \<open>k\<close> rows given to the writer (all of them
        when fewer were given); \<open>None\<close>: writing and closing succeed. A file is held to
        the row: one cut inside a row is the rows before the cut\<close>

record world =
  files :: "string \<Rightarrow> csv_file option"
  stdout :: "message list"

datatype outcome = Returned "string option" | Raised error

definition print :: "message list \<Rightarrow> world \<Rightarrow> world" where
  "print ms w = w\<lparr>stdout := stdout w @ ms\<rparr>"

text \<open>
  \<^verbatim>\<open>max(xs, key=k)\<close> on a non-empty list: the first element with the largest key. The
  key of every element is computed, in order, and a key that raises ends it. \<open>kb\<close> is
  the key of \<open>best\<close>.
\<close>

fun max_by :: "('a \<Rightarrow> error + nat) \<Rightarrow> 'a \<Rightarrow> nat \<Rightarrow> 'a list \<Rightarrow> error + 'a" where
  "max_by k best kb [] = Inr best"
| "max_by k best kb (x # xs) =
     (case k x of
        Inl e \<Rightarrow> Inl e
      | Inr kx \<Rightarrow> if kx > kb then max_by k x kx xs else max_by k best kb xs)"

text \<open>
  Lines 40-48 (and 257-265 of the second file): the newest workbook of the downloads
  directory, \<open>None\<close> when there is none.
\<close>

definition latest_download :: "env \<Rightarrow> error + string option" where
  "latest_download en =
     (case glob_downloads en of
        [] \<Rightarrow> Inr None
      | f # fs \<Rightarrow>
          (case getmtime en f of
             Inl e \<Rightarrow> Inl e
           | Inr kf \<Rightarrow> (case max_by (getmtime en) f kf fs of
                          Inl e \<Rightarrow> Inl e
                        | Inr best \<Rightarrow> Inr (Some best))))"

text \<open>\<^verbatim>\<open>workbook.sheet_by_index(0)\<close>\<close>

definition first_sheet :: "sheet list \<Rightarrow> error + sheet" where
  "first_sheet wb = (case wb of [] \<Rightarrow> Inl IndexError | sh # _ \<Rightarrow> Inr sh)"

text \<open>
  Lines 59-67: the date of the file name, or today's. \<^verbatim>\<open>[-1]\<close> and \<^verbatim>\<open>[0]\<close> raise
  \<^verbatim>\<open>IndexError\<close> on an empty list, which the handler catches like \<^verbatim>\<open>ValueError\<close>.
\<close>

definition date_str :: "string \<Rightarrow> string option" where
  "date_str excel_file =
     (case split CHR ''_'' (basename excel_file) of
        [] \<Rightarrow> None
      | parts \<Rightarrow> (case split CHR ''.'' (last parts) of [] \<Rightarrow> None | d # _ \<Rightarrow> Some d))"

definition formatted_date :: "env \<Rightarrow> string \<Rightarrow> string" where
  "formatted_date en excel_file =
     (case date_str excel_file of
        None \<Rightarrow> today en
      | Some d \<Rightarrow> (case reformat_date en d of None \<Rightarrow> today en | Some f \<Rightarrow> f))"

definition csv_path :: "env \<Rightarrow> string \<Rightarrow> string \<Rightarrow> string" where
  "csv_path en excel_file output_dir =
     path_join output_dir (''gilts_in_issue_'' @ formatted_date en excel_file @ ''.csv'')"

subsection \<open>\<^verbatim>\<open>format_gilts_csv\<close> of \<^verbatim>\<open>src/format_gilts_csv.py\<close>\<close>

text \<open>
  The body of the \<^verbatim>\<open>try\<close> (lines 58-143). \<open>Inl e\<close> is the exception \<open>e\<close> reaching
  the handler, \<open>Inr r\<close> a \<^verbatim>\<open>return r\<close>. Nothing removes the file once it is open: the
  rows that reached it before an exception stay at the path.
\<close>

definition try_body :: "env \<Rightarrow> string \<Rightarrow> string \<Rightarrow> world \<Rightarrow> (error + string option) \<times> world" where
  "try_body en excel_file output_dir w =
     (let path = csv_path en excel_file output_dir in
      case open_workbook en excel_file of
        Inl e \<Rightarrow> (Inl e, w)
      | Inr workbook \<Rightarrow>
     (case first_sheet workbook of
        Inl e \<Rightarrow> (Inl e, w)
      | Inr sh \<Rightarrow>
      let w1 = print [Sheets (length workbook), Dimensions (nrows sh) (ncols sh)] w in
     (case locate_header sh of
        Inl e \<Rightarrow> (Inl e, w1)
      | Inr None \<Rightarrow> (Inr None, print [HeaderNotFound] w1)
      | Inr (Some h) \<Rightarrow>
      let w2 = print [FoundHeader h (h + 1)] w1 in
     (case section_headers sh h of
        Inl e \<Rightarrow> (Inl e, w2)
      | Inr hs \<Rightarrow>
      let w3 = print [SectionHeaders (map (\<lambda>idx. idx + 1) hs)] w2 in
      if \<not> can_write en path then (Inl OSError, w3)
      else
       (case write_csv (io_error en path) sh h of
          (written, raised) \<Rightarrow>
            let w4 = w3\<lparr>files := (files w3)(path \<mapsto> \<lparr>quoting = QUOTE_MINIMAL, rows = written\<rparr>)\<rparr> in
            (case close_file (io_error en path) raised of
               Some e \<Rightarrow> (Inl e, w4)
             | None \<Rightarrow> (Inr (Some path), print [Converted path] w4)))))))"

text \<open>Lines 32-33: the output directory, and lines 39-48: the workbook to convert.\<close>

definition resolve_output_dir :: "env \<Rightarrow> string option \<Rightarrow> string" where
  "resolve_output_dir en output_dir_arg =
     (case output_dir_arg of
        None \<Rightarrow> path_join (script_dir en) ''csv_exports''
      | Some d \<Rightarrow> d)"

definition resolve_excel_file :: "env \<Rightarrow> string option \<Rightarrow> error + string option" where
  "resolve_excel_file en excel_file_arg =
     (case excel_file_arg of
        None \<Rightarrow> latest_download en
      | Some f \<Rightarrow> Inr (Some f))"

text \<open>
  The whole function. \<open>None\<close> for an argument is Python's \<^verbatim>\<open>None\<close>. Lines 32-53 run
  before the \<^verbatim>\<open>try\<close>: an exception there leaves the function.
\<close>

definition format_gilts_csv :: "env \<Rightarrow> string option \<Rightarrow> string option \<Rightarrow> world \<Rightarrow> outcome \<times> world" where
  "format_gilts_csv en excel_file_arg output_dir_arg w =
     (let output_dir = resolve_output_dir en output_dir_arg in
      if \<not> makedirs en output_dir then (Raised OSError, w)
      else
       (case resolve_excel_file en excel_file_arg of
          Inl e \<Rightarrow> (Raised e, w)
        | Inr None \<Rightarrow> (Returned None, print [NoExcelFiles] w)
        | Inr (Some excel_file) \<Rightarrow>
            if \<not> exists en excel_file then (Returned None, print [FileNotFound excel_file] w)
            else
             (case try_body en excel_file output_dir (print [Converting excel_file] w) of
                (Inl e, w') \<Rightarrow> (Returned None, print [ErrorConverting e] w')
              | (Inr r, w') \<Rightarrow> (Returned r, w'))))"

subsection \<open>\<^verbatim>\<open>format_gilts_csv\<close> of \<^verbatim>\<open>src/download_and_format_gilts.py\<close>\<close>

text \<open>
  The second variant, written out from its own lines. Lines 297-304: the search for the
  header row.
\<close>

fun find_header_download :: "sheet \<Rightarrow> nat list \<Rightarrow> error + nat option" where
  "find_header_download sh [] = Inr None"
| "find_header_download sh (i # is) =
     (case row_values sh i of
        Inl e \<Rightarrow> Inl e
      | Inr rv \<Rightarrow>
          if ''ISIN Code'' \<in> set rv \<and> ''Redemption Date'' \<in> set rv then Inr (Some i)
          else find_header_download sh is)"

definition locate_header_download :: "sheet \<Rightarrow> error + nat option" where
  "locate_header_download sh = find_header_download sh [0..<min 15 (nrows sh)]"

text \<open>Lines 311-325: the section headers.\<close>

fun section_loop_download :: "sheet \<Rightarrow> nat \<Rightarrow> nat list \<Rightarrow> nat list \<Rightarrow> error + nat list" where
  "section_loop_download sh h [] acc = Inr acc"
| "section_loop_download sh h (i # is) acc =
     (case cell_value sh i 0 of
        Inl e \<Rightarrow> Inl e
      | Inr c0 \<Rightarrow>
          let cell_value0 = strip (str c0) in
          if cell_value0 \<in> set [''Ultra-Short'', ''Short'', ''Medium'', ''Long'']
          then section_loop_download sh h is acc
          else if cell_value0 \<noteq> [] then
            (case cell_value sh i 1 of
               Inl e \<Rightarrow> Inl e
             | Inr c1 \<Rightarrow>
                 if (\<not> truthy c1 \<and> i > h + 1) \<or> (sublist ''Index-linked'' cell_value0 \<and> i > h + 1)
                 then section_loop_download sh h is (acc @ [i])
                 else section_loop_download sh h is acc)
          else if sublist ''Index-linked'' cell_value0 \<and> i > h + 1
          then section_loop_download sh h is (acc @ [i])
          else section_loop_download sh h is acc)"

definition section_headers_download :: "sheet \<Rightarrow> nat \<Rightarrow> error + nat list" where
  "section_headers_download sh h = section_loop_download sh h [h + 1..<nrows sh] []"

text \<open>Lines 344-357: the data rows, and lines 334-357: everything written to the file.\<close>

fun process_rows_download ::
    "nat option \<Rightarrow> sheet \<Rightarrow> nat list \<Rightarrow> string list list \<Rightarrow> string list list \<times> error option" where
  "process_rows_download lim sh [] out = (out, None)"
| "process_rows_download lim sh (i # is) out =
     (case row_values sh i of
        Inl e \<Rightarrow> (out, Some e)
      | Inr rv \<Rightarrow>
          if \<not> (\<exists>v \<in> set rv. v \<noteq> []) then process_rows_download lim sh is out
          else (case rv of
                  [] \<Rightarrow> (out, Some IndexError)
                | v0 # _ \<Rightarrow>
                    if v0 \<in> set [''Ultra-Short'', ''Short'', ''Medium'', ''Long'']
                    then process_rows_download lim sh is out
                    else (case writerow lim out rv of
                            Inl e \<Rightarrow> (out, Some e)
                          | Inr out' \<Rightarrow> process_rows_download lim sh is out')))"

definition write_csv_download :: "nat option \<Rightarrow> sheet \<Rightarrow> nat \<Rightarrow> string list list \<times> error option" where
  "write_csv_download lim sh h =
     (case row_values sh 0 of
        Inl e \<Rightarrow> ([], Some e)
      | Inr row1 \<Rightarrow>
     (case writerow lim [] row1 of
        Inl e \<Rightarrow> ([], Some e)
      | Inr out1 \<Rightarrow>
     (case row_values sh 5 of
        Inl e \<Rightarrow> (out1, Some e)
      | Inr row2 \<Rightarrow>
     (case writerow lim out1 row2 of
        Inl e \<Rightarrow> (out1, Some e)
      | Inr out2 \<Rightarrow>
     (case row_values sh h of
        Inl e \<Rightarrow> (out2, Some e)
      | Inr headers \<Rightarrow>
     (case writerow lim out2 headers of
        Inl e \<Rightarrow> (out2, Some e)
      | Inr out3 \<Rightarrow> process_rows_download lim sh [h + 1..<nrows sh] out3))))))"

text \<open>
  Lines 273-365: the body of the \<^verbatim>\<open>try\<close>. It prints the section headers as they are
  (line 327) and writes with \<^verbatim>\<open>csv.QUOTE_ALL\<close> (line 332).
\<close>

definition try_body_download :: "env \<Rightarrow> string \<Rightarrow> string \<Rightarrow> world \<Rightarrow> (error + string option) \<times> world" where
  "try_body_download en excel_file output_dir w =
     (let path = csv_path en excel_file output_dir in
      case open_workbook en excel_file of
        Inl e \<Rightarrow> (Inl e, w)
      | Inr workbook \<Rightarrow>
     (case first_sheet workbook of
        Inl e \<Rightarrow> (Inl e, w)
      | Inr sh \<Rightarrow>
      let w1 = print [Sheets (length workbook), Dimensions (nrows sh) (ncols sh)] w in
     (case locate_header_download sh of
        Inl e \<Rightarrow> (Inl e, w1)
      | Inr None \<Rightarrow> (Inr None, print [HeaderNotFound] w1)
      | Inr (Some h) \<Rightarrow>
      let w2 = print [FoundHeader h (h + 1)] w1 in
     (case section_headers_download sh h of
        Inl e \<Rightarrow> (Inl e, w2)
      | Inr hs \<Rightarrow>
      let w3 = print [SectionHeaders hs] w2 in
      if \<not> can_write en path then (Inl OSError, w3)
      else
       (case write_csv_download (io_error en path) sh h of
          (written, raised) \<Rightarrow>
            let w4 = w3\<lparr>files := (files w3)(path \<mapsto> \<lparr>quoting = QUOTE_ALL, rows = written\<rparr>)\<rparr> in
            (case close_file (io_error en path) raised of
               Some e \<Rightarrow> (Inl e, w4)
             | None \<Rightarrow> (Inr (Some path), print [Converted path] w4)))))))"

text \<open>
  Lines 255-265: the workbook to convert. The module has no \<^verbatim>\<open>import glob\<close> at its
  top: \<^verbatim>\<open>glob.glob\<close> on line 257 raises \<^verbatim>\<open>NameError\<close> unless the module is the
  main program, which imports it on lines 409-411.
\<close>

definition resolve_excel_file_download :: "env \<Rightarrow> string option \<Rightarrow> error + string option" where
  "resolve_excel_file_download en excel_file_arg =
     (case excel_file_arg of
        None \<Rightarrow> if \<not> glob_imported en then Inl NameError else latest_download en
      | Some f \<Rightarrow> Inr (Some f))"

definition format_gilts_csv_download ::
    "env \<Rightarrow> string option \<Rightarrow> string option \<Rightarrow> world \<Rightarrow> outcome \<times> world" where
  "format_gilts_csv_download en excel_file_arg output_dir_arg w =
     (let output_dir = resolve_output_dir en output_dir_arg in
      if \<not> makedirs en output_dir then (Raised OSError, w)
      else
       (case resolve_excel_file_download en excel_file_arg of
          Inl e \<Rightarrow> (Raised e, w)
        | Inr None \<Rightarrow> (Returned None, print [NoExcelFiles] w)
        | Inr (Some excel_file) \<Rightarrow>
            if \<not> exists en excel_file then (Returned None, print [FileNotFound excel_file] w)
            else
             (case try_body_download en excel_file output_dir (print [Converting excel_file] w) of
                (Inl e, w') \<Rightarrow> (Returned None, print [ErrorConverting e] w')
              | (Inr r, w') \<Rightarrow> (Returned r, w'))))"

subsection \<open>The specification's vocabulary\<close>

text \<open>
  The words of the specification, as functions of the document alone. A row "trimmed
  to strings" is each of its \<open>ncols\<close> cells, blank-padded, through \<^verbatim>\<open>str\<close> and
  \<^verbatim>\<open>strip\<close>.
\<close>

definition trimmed_row :: "sheet \<Rightarrow> nat \<Rightarrow> string list" where
  "trimmed_row sh i = map (\<lambda>j. strip (str (cell_at sh i j))) [0..<ncols sh]"

definition label :: "sheet \<Rightarrow> nat \<Rightarrow> string" where
  "label sh i = strip (str (cell_at sh i 0))"

text \<open>Both header tokens are members of the trimmed row (equality, not containment).\<close>

definition is_header :: "sheet \<Rightarrow> nat \<Rightarrow> bool" where
  "is_header sh i =
     (''ISIN Code'' \<in> set (trimmed_row sh i) \<and> ''Redemption Date'' \<in> set (trimmed_row sh i))"

definition is_group_label :: "sheet \<Rightarrow> nat \<Rightarrow> bool" where
  "is_group_label sh i = (label sh i \<in> set group_labels)"

definition is_empty_row :: "sheet \<Rightarrow> nat \<Rightarrow> bool" where
  "is_empty_row sh i = list_all (\<lambda>v. v = []) (trimmed_row sh i)"

text \<open>
  The section-header test of the specification, with "blank" read as the code tests it:
  the raw second cell is an empty string or a zero.
\<close>

definition section_test :: "sheet \<Rightarrow> nat \<Rightarrow> nat \<Rightarrow> bool" where
  "section_test sh h i =
     (h + 1 < i \<and>
      ((label sh i \<noteq> [] \<and> \<not> truthy (cell_at sh i 1)) \<or> sublist ''Index-linked'' (label sh i)))"

text \<open>A row is written when it is neither empty nor a group label: nothing else is asked.\<close>

definition retained :: "sheet \<Rightarrow> nat \<Rightarrow> bool" where
  "retained sh i = (\<not> is_empty_row sh i \<and> \<not> is_group_label sh i)"

text \<open>
  The indices recorded as section headers, the indices of the rows written after the
  three fixed lines, and the rows of a complete output file.
\<close>

definition section_list :: "sheet \<Rightarrow> nat \<Rightarrow> nat list" where
  "section_list sh h =
     filter (\<lambda>i. \<not> is_group_label sh i \<and> section_test sh h i) [h + 1..<nrows sh]"

definition data_rows :: "sheet \<Rightarrow> nat \<Rightarrow> nat list" where
  "data_rows sh h = filter (retained sh) [h + 1..<nrows sh]"

definition output_rows :: "sheet \<Rightarrow> nat \<Rightarrow> string list list" where
  "output_rows sh h =
     [trimmed_row sh 0, trimmed_row sh 5, trimmed_row sh h] @ map (trimmed_row sh) (data_rows sh h)"

text \<open>
  The rows the run gives to the writer when no I/O error stops it: in a sheet of at most
  5 rows, reading row 5 raises after the title line.
\<close>

definition submitted_rows :: "sheet \<Rightarrow> nat \<Rightarrow> string list list" where
  "submitted_rows sh h = (if 5 < nrows sh then output_rows sh h else [trimmed_row sh 0])"

definition is_section_message :: "message \<Rightarrow> bool" where
  "is_section_message m = (case m of SectionHeaders hs \<Rightarrow> True | _ \<Rightarrow> False)"

subsection \<open>Example documents\<close>

text \<open>
  A sheet laid out like the published one: title in row 0, totals in row 5, column
  headers in row 8, then a blank row, a group label, a gilt, a section header and a
  second gilt. Short rows are as xlrd pads them.
\<close>

definition demo_sheet :: sheet where
  "demo_sheet = \<lparr>ncols = 4, cells =
     [[Text ''Gilts in Issue''], [], [], [], [],
      [Text '' Total '', Number ''1000.5'' True],
      [], [],
      [Text ''Conventional Gilts'', Text ''ISIN Code'', Text ''Redemption Date '', Text ''Coupon''],
      [],
      [Text ''Short'', Text []],
      [Text ''UK Treasury 2030'', Text ''GB00ABC123'', Text ''2030-01-01'', Number ''1.5'' True],
      [Text ''Index-linked Gilts''],
      [Text ''UK IL 2035'', Text ''GB00XYZ789'', Text ''2035-03-22'', Number ''0.125'' True]]\<rparr>"

text \<open>A sheet of one row, the header row.\<close>

definition short_sheet :: sheet where
  "short_sheet = \<lparr>ncols = 2, cells = [[Text ''ISIN Code'', Text ''Redemption Date'']]\<rparr>"

text \<open>A sheet whose header row is row 0 and whose row 5 is a group label.\<close>

definition early_sheet :: sheet where
  "early_sheet = \<lparr>ncols = 2, cells =
     [[Text ''ISIN Code'', Text ''Redemption Date''],
      [Text ''UK Treasury 2030'', Text ''GB00ABC123''],
      [], [], [],
      [Text ''Short'', Text ''x'']]\<rparr>"

text \<open>A sheet whose only row with both header tokens is row 20.\<close>

definition late_sheet :: sheet where
  "late_sheet = \<lparr>ncols = 2, cells =
     replicate 20 [Text ''ISIN Code (see notes)'', Text ''Redemption Date'']
       @ [[Text ''ISIN Code'', Text ''Redemption Date'']]\<rparr>"

text \<open>
  A sheet with a row, below the header row, whose first cell is text and whose second
  cell is one space.
\<close>

definition spaced_sheet :: sheet where
  "spaced_sheet = \<lparr>ncols = 2, cells =
     [[Text ''Gilts in Issue''], [], [], [], [],
      [Text ''Total'', Number ''1000.5'' True],
      [], [],
      [Text ''ISIN Code'', Text ''Redemption Date''],
      [],
      [Text ''Notes'', Text '' '']]\<rparr>"

text \<open>
  An environment: the module of the second variant has been imported, not run; the
  downloads directory holds one workbook; the file under \<^verbatim>\<open>full\<close> takes two rows.
\<close>

definition demo_env :: env where
  "demo_env = \<lparr>
     script_dir = ''/app'',
     makedirs = (\<lambda>d. d \<noteq> ''/proc/out''),
     glob_imported = False,
     glob_downloads = [''gilts_in_issue_03-11-2026.xls''],
     getmtime = (\<lambda>f. Inr 0),
     exists = (\<lambda>f. True),
     reformat_date = (\<lambda>s. if s = ''03-11-2026'' then Some ''20261103'' else None),
     today = ''20261104'',
     open_workbook = (\<lambda>f.
        if f = ''gilts_in_issue_03-11-2026.xls'' then Inr [demo_sheet]
        else if f = ''short.xls'' then Inr [short_sheet]
        else if f = ''early.xls'' then Inr [early_sheet]
        else if f = ''late.xls'' then Inr [late_sheet]
        else if f = ''spaced.xls'' then Inr [spaced_sheet]
        else Inl XLRDError),
     can_write = (\<lambda>p. True),
     io_error = (\<lambda>p. if p = ''full/gilts_in_issue_20261103.csv'' then Some 2 else None)\<rparr>"

definition empty_world :: world where
  "empty_world = \<lparr>files = (\<lambda>p. None), stdout = []\<rparr>"

section \<open>Properties\<close>

subsection \<open>Reading rows\<close>

lemma collect_all_ok:
  "(\<And>x. x \<in> set xs \<Longrightarrow> f x = Inr (g x)) \<Longrightarrow> collect f xs = Inr (map g xs)"
  by (induction xs) auto

lemma row_values_in_range:
  "i < nrows sh \<Longrightarrow> row_values sh i = Inr (trimmed_row sh i)"
  unfolding row_values_def trimmed_row_def
  by (rule collect_all_ok) (simp add: cell_value_def)

lemma row_values_no_columns:
  "ncols sh = 0 \<Longrightarrow> row_values sh i = Inr []"
  by (simp add: row_values_def)

lemma row_values_out_of_range:
  "\<not> i < nrows sh \<Longrightarrow> 0 < ncols sh \<Longrightarrow> row_values sh i = Inl IndexError"
  by (simp add: row_values_def cell_value_def upt_conv_Cons)

lemma length_trimmed_row: "length (trimmed_row sh i) = ncols sh"
  by (simp add: trimmed_row_def)

lemma find_header_find:
  "(\<And>i. i \<in> set is \<Longrightarrow> i < nrows sh) \<Longrightarrow> find_header sh is = Inr (find (is_header sh) is)"
  by (induction "is") (simp_all add: row_values_in_range is_header_def)

lemma locate_header_find:
  "locate_header sh = Inr (find (is_header sh) [0..<min 15 (nrows sh)])"
  unfolding locate_header_def by (rule find_header_find) simp

lemma is_header_two_columns: "is_header sh i \<Longrightarrow> 2 \<le> ncols sh"
proof -
  assume h: "is_header sh i"
  have "card {''ISIN Code'', ''Redemption Date''} \<le> card (set (trimmed_row sh i))"
    using h by (intro card_mono) (auto simp: is_header_def)
  also have "\<dots> \<le> length (trimmed_row sh i)" by (rule card_length)
  finally show ?thesis by (simp add: length_trimmed_row)
qed

lemma locate_header_Some:
  "locate_header sh = Inr (Some h) \<Longrightarrow> h < nrows sh \<and> h < 15 \<and> is_header sh h \<and> 2 \<le> ncols sh"
  by (auto simp: locate_header_find find_Some_iff is_header_two_columns)

lemma hd_trimmed_row: "0 < ncols sh \<Longrightarrow> hd (trimmed_row sh i) = label sh i"
  by (simp add: trimmed_row_def label_def upt_conv_Cons)

lemma process_rows_in_range:
  "(\<And>i. i \<in> set is \<Longrightarrow> i < nrows sh) \<Longrightarrow> 0 < ncols sh \<Longrightarrow>
   process_rows None sh is out = (out @ map (trimmed_row sh) (filter (retained sh) is), None)"
proof (induction "is" arbitrary: out)
  case Nil
  then show ?case by simp
next
  case (Cons i "is")
  have rv: "row_values sh i = Inr (trimmed_row sh i)"
    using Cons.prems by (simp add: row_values_in_range)
  have ne: "trimmed_row sh i \<noteq> []"
    using Cons.prems length_trimmed_row [of sh i] by auto
  have e: "(\<exists>v \<in> set (trimmed_row sh i). v \<noteq> []) = (\<not> is_empty_row sh i)"
    by (auto simp: is_empty_row_def list_all_iff)
  have g: "(hd (trimmed_row sh i) \<in> set group_labels) = is_group_label sh i"
    using Cons.prems by (simp add: hd_trimmed_row is_group_label_def)
  show ?case
    using Cons.IH [of out] Cons.IH [of "out @ [trimmed_row sh i]"] Cons.prems ne e g
    by (cases "trimmed_row sh i") (auto simp: rv retained_def writerow_def)
qed

lemma process_rows_limited:
  "(\<And>i. i \<in> set is \<Longrightarrow> i < nrows sh) \<Longrightarrow> 0 < ncols sh \<Longrightarrow> length out \<le> k \<Longrightarrow>
   fst (process_rows (Some k) sh is out)
     = take k (out @ map (trimmed_row sh) (filter (retained sh) is))"
proof (induction "is" arbitrary: out)
  case Nil
  then show ?case by simp
next
  case (Cons i "is")
  have rv: "row_values sh i = Inr (trimmed_row sh i)"
    using Cons.prems by (simp add: row_values_in_range)
  have ne: "trimmed_row sh i \<noteq> []"
    using Cons.prems length_trimmed_row [of sh i] by auto
  have e: "(\<exists>v \<in> set (trimmed_row sh i). v \<noteq> []) = (\<not> is_empty_row sh i)"
    by (auto simp: is_empty_row_def list_all_iff)
  have g: "(hd (trimmed_row sh i) \<in> set group_labels) = is_group_label sh i"
    using Cons.prems by (simp add: hd_trimmed_row is_group_label_def)
  show ?case
  proof (cases "retained sh i")
    case False
    then show ?thesis
      using Cons.IH [of out] Cons.prems ne e g
      by (cases "trimmed_row sh i") (auto simp: rv retained_def)
  next
    case True
    show ?thesis
    proof (cases "k = length out")
      case full: True
      then show ?thesis
        using True ne e g
        by (cases "trimmed_row sh i") (auto simp: rv retained_def writerow_def)
    next
      case False
      with Cons.prems have "length (out @ [trimmed_row sh i]) \<le> k" by simp
      then show ?thesis
        using Cons.IH [of "out @ [trimmed_row sh i]"] Cons.prems True False ne e g
        by (cases "trimmed_row sh i") (auto simp: rv retained_def writerow_def)
    qed
  qed
qed

lemma section_loop_in_range:
  "(\<And>i. i \<in> set is \<Longrightarrow> i < nrows sh) \<Longrightarrow> 2 \<le> ncols sh \<Longrightarrow>
   section_loop sh h is acc =
     Inr (acc @ filter (\<lambda>i. \<not> is_group_label sh i \<and> section_test sh h i) is)"
proof (induction "is" arbitrary: acc)
  case Nil
  then show ?case by simp
next
  case (Cons i "is")
  have c0: "cell_value sh i 0 = Inr (cell_at sh i 0)" and c1: "cell_value sh i (Suc 0) = Inr (cell_at sh i (Suc 0))"
    using Cons.prems by (simp_all add: cell_value_def)
  have nosub: "\<not> sublist ''Index-linked'' []" by simp
  show ?case
    using Cons.IH [of acc] Cons.IH [of "acc @ [i]"] Cons.prems nosub
    by (auto simp: c0 c1 Let_def is_group_label_def section_test_def label_def)
qed

lemma section_headers_located:
  "locate_header sh = Inr (Some h) \<Longrightarrow> section_headers sh h = Inr (section_list sh h)"
  unfolding section_headers_def section_list_def
  using section_loop_in_range [of "[h + 1..<nrows sh]" sh h "[]"]
  by (auto dest: locate_header_Some)

lemma write_csv_complete:
  assumes "locate_header sh = Inr (Some h)" and "5 < nrows sh"
  shows "write_csv None sh h = (output_rows sh h, None)"
proof -
  have h: "h < nrows sh" and c: "0 < ncols sh"
    using locate_header_Some [OF assms(1)] by auto
  have "process_rows None sh [h + 1..<nrows sh] [trimmed_row sh 0, trimmed_row sh 5, trimmed_row sh h]
          = (output_rows sh h, None)"
    unfolding output_rows_def data_rows_def
    by (rule process_rows_in_range) (use c in auto)
  then show ?thesis
    using h assms(2) by (simp add: write_csv_def row_values_in_range writerow_def)
qed

lemma write_csv_short:
  assumes "locate_header sh = Inr (Some h)" and "\<not> 5 < nrows sh"
  shows "write_csv None sh h = ([trimmed_row sh 0], Some IndexError)"
proof -
  have h: "h < nrows sh" and c: "0 < ncols sh"
    using locate_header_Some [OF assms(1)] by auto
  then have "0 < nrows sh" by simp
  then show ?thesis
    using assms(2) c
    by (simp add: write_csv_def row_values_in_range row_values_out_of_range writerow_def)
qed

lemma write_csv_limited:
  assumes "locate_header sh = Inr (Some h)"
  shows "fst (write_csv (Some k) sh h) = take k (submitted_rows sh h)"
proof -
  have h: "h < nrows sh" and c: "0 < ncols sh"
    using locate_header_Some [OF assms] by auto
  then have r0: "row_values sh 0 = Inr (trimmed_row sh 0)"
    and rh: "row_values sh h = Inr (trimmed_row sh h)"
    by (simp_all add: row_values_in_range)
  show ?thesis
  proof (cases "5 < nrows sh")
    case False
    then have "row_values sh 5 = Inl IndexError"
      using c by (simp add: row_values_out_of_range)
    then show ?thesis
      using False by (simp add: write_csv_def r0 writerow_def submitted_rows_def)
  next
    case True
    then have r5: "row_values sh 5 = Inr (trimmed_row sh 5)"
      by (simp add: row_values_in_range)
    let ?three = "[trimmed_row sh 0, trimmed_row sh 5, trimmed_row sh h]"
    have p: "fst (process_rows (Some k) sh [h + 1..<nrows sh] ?three) = take k (output_rows sh h)"
      if "3 \<le> k"
      unfolding output_rows_def data_rows_def
      by (rule process_rows_limited) (use c that in auto)
    consider "k = 0" | "k = 1" | "k = 2" | "3 \<le> k" by linarith
    then show ?thesis
    proof cases
      case 4
      then show ?thesis
        using True p by (simp add: write_csv_def r0 r5 rh writerow_def submitted_rows_def)
    qed (simp_all add: write_csv_def r0 r5 rh writerow_def submitted_rows_def output_rows_def True)
  qed
qed

lemma try_body_no_header:
  assumes "open_workbook en f = Inr (sh # rest)" and "locate_header sh = Inr None"
  shows "try_body en f d w =
           (Inr None, print [Sheets (Suc (length rest)), Dimensions (nrows sh) (ncols sh), HeaderNotFound] w)"
  using assms by (simp add: try_body_def first_sheet_def print_def Let_def)

lemma try_body_unwritable:
  assumes "open_workbook en f = Inr (sh # rest)" and "locate_header sh = Inr (Some h)"
    and "\<not> can_write en (csv_path en f d)"
  shows "try_body en f d w =
           (Inl OSError,
            print [Sheets (Suc (length rest)), Dimensions (nrows sh) (ncols sh), FoundHeader h (h + 1),
                   SectionHeaders (map Suc (section_list sh h))] w)"
  using assms by (simp add: try_body_def first_sheet_def print_def section_headers_located Let_def)

lemma try_body_short:
  assumes "open_workbook en f = Inr (sh # rest)" and "locate_header sh = Inr (Some h)"
    and "can_write en (csv_path en f d)" and "io_error en (csv_path en f d) = None"
    and "\<not> 5 < nrows sh"
  shows "try_body en f d w =
           (Inl IndexError,
            w\<lparr>files := (files w)(csv_path en f d \<mapsto> \<lparr>quoting = QUOTE_MINIMAL, rows = [trimmed_row sh 0]\<rparr>),
              stdout := stdout w @
                [Sheets (Suc (length rest)), Dimensions (nrows sh) (ncols sh), FoundHeader h (h + 1),
                 SectionHeaders (map Suc (section_list sh h))]\<rparr>)"
  using assms
  by (simp add: try_body_def first_sheet_def print_def section_headers_located write_csv_short
        close_file_def Let_def)

lemma try_body_complete:
  assumes "open_workbook en f = Inr (sh # rest)" and "locate_header sh = Inr (Some h)"
    and "can_write en (csv_path en f d)" and "io_error en (csv_path en f d) = None"
    and "5 < nrows sh"
  shows "try_body en f d w =
           (Inr (Some (csv_path en f d)),
            w\<lparr>files := (files w)(csv_path en f d \<mapsto> \<lparr>quoting = QUOTE_MINIMAL, rows = output_rows sh h\<rparr>),
              stdout := stdout w @
                [Sheets (Suc (length rest)), Dimensions (nrows sh) (ncols sh), FoundHeader h (h + 1),
                 SectionHeaders (map Suc (section_list sh h)), Converted (csv_path en f d)]\<rparr>)"
  using assms
  by (simp add: try_body_def first_sheet_def print_def section_headers_located write_csv_complete
        close_file_def Let_def)

lemma try_body_io_error:
  assumes "open_workbook en f = Inr (sh # rest)" and "locate_header sh = Inr (Some h)"
    and "can_write en (csv_path en f d)" and "io_error en (csv_path en f d) = Some k"
  shows "try_body en f d w =
           (Inl OSError,
            w\<lparr>files := (files w)(csv_path en f d \<mapsto>
                  \<lparr>quoting = QUOTE_MINIMAL, rows = take k (submitted_rows sh h)\<rparr>),
              stdout := stdout w @
                [Sheets (Suc (length rest)), Dimensions (nrows sh) (ncols sh), FoundHeader h (h + 1),
                 SectionHeaders (map Suc (section_list sh h))]\<rparr>)"
proof -
  obtain written raised where wr: "write_csv (Some k) sh h = (written, raised)"
    by (cases "write_csv (Some k) sh h")
  with write_csv_limited [OF assms(2), of k] have "written = take k (submitted_rows sh h)"
    by simp
  with wr show ?thesis
    using assms
    by (simp add: try_body_def first_sheet_def print_def section_headers_located close_file_def Let_def)
qed

lemma try_body_unreadable:
  "open_workbook en f = Inl e \<Longrightarrow> try_body en f d w = (Inl e, w)"
  "open_workbook en f = Inr [] \<Longrightarrow> try_body en f d w = (Inl IndexError, w)"
  by (simp_all add: try_body_def first_sheet_def Let_def)

lemma locate_header_cases:
  obtains "locate_header sh = Inr None" | h where "locate_header sh = Inr (Some h)"
  by (cases "find (is_header sh) [0..<min 15 (nrows sh)]") (auto simp: locate_header_find)

subsection \<open>The whole function\<close>

lemma format_success:
  assumes "format_gilts_csv en ef od w = (Returned (Some p), w')"
  obtains f sh rest h where
    "resolve_excel_file en ef = Inr (Some f)"
    "open_workbook en f = Inr (sh # rest)"
    "locate_header sh = Inr (Some h)"
    "5 < nrows sh"
    "p = csv_path en f (resolve_output_dir en od)"
    "w' = w\<lparr>files := (files w)(p \<mapsto> \<lparr>quoting = QUOTE_MINIMAL, rows = output_rows sh h\<rparr>),
            stdout := stdout w @
              [Converting f, Sheets (Suc (length rest)), Dimensions (nrows sh) (ncols sh),
               FoundHeader h (h + 1), SectionHeaders (map Suc (section_list sh h)), Converted p]\<rparr>"
proof -
  let ?d = "resolve_output_dir en od"
  from assms have mk: "makedirs en ?d"
    by (auto simp: format_gilts_csv_def Let_def split: if_splits)
  from assms mk obtain f where f: "resolve_excel_file en ef = Inr (Some f)"
    by (auto simp: format_gilts_csv_def Let_def split: sum.splits option.splits)
  from assms mk f have ex: "exists en f"
    by (auto simp: format_gilts_csv_def Let_def split: if_splits)
  let ?w = "print [Converting f] w"
  from assms mk f ex have tb: "try_body en f ?d ?w = (Inr (Some p), w')"
    by (auto simp: format_gilts_csv_def Let_def split: prod.splits sum.splits)
  show ?thesis
  proof (cases "open_workbook en f")
    case (Inl e)
    with tb show ?thesis by (simp add: try_body_unreadable)
  next
    case (Inr wb)
    show ?thesis
    proof (cases wb)
      case Nil
      with Inr tb show ?thesis by (simp add: try_body_unreadable)
    next
      case (Cons sh rest)
      with Inr have ow: "open_workbook en f = Inr (sh # rest)" by simp
      show ?thesis
      proof (cases sh rule: locate_header_cases)
        case 1
        with tb ow show ?thesis by (simp add: try_body_no_header)
      next
        case (2 h)
        show ?thesis
        proof (cases "can_write en (csv_path en f ?d)")
          case False
          with tb ow 2 show ?thesis by (simp add: try_body_unwritable)
        next
          case True
          show ?thesis
          proof (cases "io_error en (csv_path en f ?d)")
            case (Some k)
            with tb ow 2 True show ?thesis by (simp add: try_body_io_error)
          next
            case None
            show ?thesis
          proof (cases "5 < nrows sh")
            case False
            with tb ow 2 True None show ?thesis by (simp add: try_body_short)
          next
            case big: True
            from tb have "p = csv_path en f ?d"
              and "w' = ?w\<lparr>files := (files ?w)(csv_path en f ?d \<mapsto>
                          \<lparr>quoting = QUOTE_MINIMAL, rows = output_rows sh h\<rparr>),
                        stdout := stdout ?w @
                          [Sheets (Suc (length rest)), Dimensions (nrows sh) (ncols sh),
                           FoundHeader h (h + 1), SectionHeaders (map Suc (section_list sh h)),
                           Converted (csv_path en f ?d)]\<rparr>"
              by (auto simp: try_body_complete [OF ow 2 True None big])
            then show ?thesis
              using f ow 2 big by (intro that [of f sh rest h]) (simp_all add: print_def)
          qed
          qed
        qed
      qed
    qed
  qed
qed

lemma format_complete:
  assumes "makedirs en (resolve_output_dir en od)"
    and "resolve_excel_file en ef = Inr (Some f)" and "exists en f"
    and "open_workbook en f = Inr (sh # rest)" and "locate_header sh = Inr (Some h)"
    and "can_write en (csv_path en f (resolve_output_dir en od))"
    and "io_error en (csv_path en f (resolve_output_dir en od)) = None"
    and "5 < nrows sh"
  shows "format_gilts_csv en ef od w =
           (Returned (Some (csv_path en f (resolve_output_dir en od))),
            w\<lparr>files := (files w)(csv_path en f (resolve_output_dir en od) \<mapsto>
                  \<lparr>quoting = QUOTE_MINIMAL, rows = output_rows sh h\<rparr>),
              stdout := stdout w @
                [Converting f, Sheets (Suc (length rest)), Dimensions (nrows sh) (ncols sh),
                 FoundHeader h (h + 1), SectionHeaders (map Suc (section_list sh h)),
                 Converted (csv_path en f (resolve_output_dir en od))]\<rparr>)"
  using assms(1-3)
  by (simp add: format_gilts_csv_def Let_def try_body_complete [OF assms(4-8)] print_def)

subsection \<open>The example documents, evaluated\<close>

lemma demo_header: "locate_header demo_sheet = Inr (Some 8)"
  by code_simp

lemma demo_nrows: "nrows demo_sheet = 14"
  by code_simp

lemma demo_output:
  "output_rows demo_sheet 8 =
     [[''Gilts in Issue'', [], [], []],
      [''Total'', ''1000.5'', [], []],
      [''Conventional Gilts'', ''ISIN Code'', ''Redemption Date'', ''Coupon''],
      [''UK Treasury 2030'', ''GB00ABC123'', ''2030-01-01'', ''1.5''],
      [''Index-linked Gilts'', [], [], []],
      [''UK IL 2035'', ''GB00XYZ789'', ''2035-03-22'', ''0.125'']]"
  by code_simp

lemma demo_sections: "section_list demo_sheet 8 = [12]"
  by code_simp

lemma demo_path:
  "csv_path demo_env ''gilts_in_issue_03-11-2026.xls'' ''out'' = ''out/gilts_in_issue_20261103.csv''"
  by code_simp

lemma demo_run:
  "format_gilts_csv demo_env (Some ''gilts_in_issue_03-11-2026.xls'') (Some ''out'') empty_world =
     (Returned (Some ''out/gilts_in_issue_20261103.csv''),
      empty_world\<lparr>files := (files empty_world)(''out/gilts_in_issue_20261103.csv'' \<mapsto>
                  \<lparr>quoting = QUOTE_MINIMAL, rows = output_rows demo_sheet 8\<rparr>),
              stdout := stdout empty_world @
                [Converting ''gilts_in_issue_03-11-2026.xls'', Sheets 1, Dimensions 14 4,
                 FoundHeader 8 9, SectionHeaders [13], Converted ''out/gilts_in_issue_20261103.csv'']\<rparr>)"
proof -
  have 1: "makedirs demo_env (resolve_output_dir demo_env (Some ''out''))"
    by (simp add: demo_env_def resolve_output_dir_def)
  have 2: "resolve_excel_file demo_env (Some ''gilts_in_issue_03-11-2026.xls'') = Inr (Some ''gilts_in_issue_03-11-2026.xls'')"
    by (simp add: resolve_excel_file_def)
  have 3: "exists demo_env ''gilts_in_issue_03-11-2026.xls''"
    by (simp add: demo_env_def)
  have 4: "open_workbook demo_env ''gilts_in_issue_03-11-2026.xls'' = Inr (demo_sheet # [])"
    by (simp add: demo_env_def)
  have 6: "can_write demo_env (csv_path demo_env ''gilts_in_issue_03-11-2026.xls'' (resolve_output_dir demo_env (Some ''out'')))"
    by (simp add: demo_env_def)
  have 7: "5 < nrows demo_sheet" by (simp add: demo_nrows)
  have d: "resolve_output_dir demo_env (Some ''out'') = ''out''"
    by (simp add: resolve_output_dir_def)
  have 8: "io_error demo_env (csv_path demo_env ''gilts_in_issue_03-11-2026.xls''
             (resolve_output_dir demo_env (Some ''out''))) = None"
    by (simp add: d demo_path) (simp add: demo_env_def)
  have c: "ncols demo_sheet = 4" by (simp add: demo_sheet_def)
  show ?thesis
    using format_complete [OF 1 2 3 4 demo_header 6 8 7, of empty_world]
    by (simp add: d demo_path demo_sections demo_nrows c)
qed

subsection \<open>Searching a range\<close>

lemma find_upt_Some:
  "find P [0..<n] = Some i \<longleftrightarrow> i < n \<and> P i \<and> (\<forall>k<i. \<not> P k)"
  by (auto simp: find_Some_iff)

lemma find_upt_None:
  "find P [0..<n] = None \<longleftrightarrow> (\<forall>k<n. \<not> P k)"
  by (auto simp: find_None_iff)

lemma is_header_take:
  "i < 15 \<Longrightarrow> is_header (sh\<lparr>cells := take 15 (cells sh)\<rparr>) i = is_header sh i"
  by (simp add: is_header_def trimmed_row_def cell_at_def cong: if_cong)

lemma locate_header_take:
  "locate_header (sh\<lparr>cells := take 15 (cells sh)\<rparr>) = locate_header sh"
proof -
  let ?sh = "sh\<lparr>cells := take 15 (cells sh)\<rparr>"
  have n: "min 15 (nrows ?sh) = min 15 (nrows sh)"
    by (simp add: nrows_def)
  have "locate_header ?sh = Inr (find (is_header ?sh) [0..<min 15 (nrows ?sh)])"
    by (rule locate_header_find)
  also have "\<dots> = Inr (find (is_header ?sh) [0..<min 15 (nrows sh)])"
    by (simp only: n)
  also have "\<dots> = Inr (find (is_header sh) [0..<min 15 (nrows sh)])"
    by (simp, rule find_cong) (simp_all add: is_header_take)
  also have "\<dots> = locate_header sh"
    by (rule locate_header_find [symmetric])
  finally show ?thesis .
qed

subsection \<open>Which rows are written\<close>

lemma retained_trimmed_row:
  assumes "trimmed_row sh i = trimmed_row sh k" and "0 < ncols sh"
  shows "retained sh i = retained sh k"
proof -
  have "label sh i = label sh k"
    by (metis assms hd_trimmed_row)
  then show ?thesis
    using assms(1) by (simp add: retained_def is_empty_row_def is_group_label_def)
qed

lemma not_retained_not_written:
  assumes "\<not> retained sh i" and "0 < ncols sh"
  shows "trimmed_row sh i \<notin> set (map (trimmed_row sh) (data_rows sh h))"
proof
  assume "trimmed_row sh i \<in> set (map (trimmed_row sh) (data_rows sh h))"
  then obtain k where "retained sh k" and "trimmed_row sh i = trimmed_row sh k"
    by (auto simp: data_rows_def)
  with assms show False
    using retained_trimmed_row [of sh i k] by simp
qed

lemma label_nonempty_not_empty_row:
  assumes "label sh i \<noteq> []" and "0 < ncols sh"
  shows "\<not> is_empty_row sh i"
proof -
  have "label sh i \<in> set (trimmed_row sh i)"
    using assms(2) by (auto simp: trimmed_row_def label_def)
  with assms(1) show ?thesis
    by (auto simp: is_empty_row_def list_all_iff)
qed

lemma empty_row_label: "is_empty_row sh i \<Longrightarrow> 0 < ncols sh \<Longrightarrow> label sh i = []"
  using label_nonempty_not_empty_row by blast

lemma section_test_label: "section_test sh h i \<Longrightarrow> label sh i \<noteq> []"
  by (auto simp: section_test_def)

lemma sorted_upt_filter: "sorted_wrt (<) (filter P [m..<n])"
  by (simp add: sorted_wrt_filter)

lemma early_run:
  "format_gilts_csv demo_env (Some ''early.xls'') (Some ''out'') empty_world =
     (Returned (Some ''out/gilts_in_issue_20261104.csv''),
      empty_world\<lparr>files := (files empty_world)(''out/gilts_in_issue_20261104.csv'' \<mapsto>
                  \<lparr>quoting = QUOTE_MINIMAL, rows =
                     [[''ISIN Code'', ''Redemption Date''],
                      [''Short'', ''x''],
                      [''ISIN Code'', ''Redemption Date''],
                      [''UK Treasury 2030'', ''GB00ABC123'']]\<rparr>),
              stdout := stdout empty_world @
                [Converting ''early.xls'', Sheets 1, Dimensions 6 2,
                 FoundHeader 0 1, SectionHeaders [], Converted ''out/gilts_in_issue_20261104.csv'']\<rparr>)"
proof -
  have 1: "makedirs demo_env (resolve_output_dir demo_env (Some ''out''))"
    by (simp add: demo_env_def resolve_output_dir_def)
  have 2: "resolve_excel_file demo_env (Some ''early.xls'') = Inr (Some ''early.xls'')"
    by (simp add: resolve_excel_file_def)
  have 3: "exists demo_env ''early.xls''"
    by (simp add: demo_env_def)
  have 4: "open_workbook demo_env ''early.xls'' = Inr (early_sheet # [])"
    by (simp add: demo_env_def)
  have 5: "locate_header early_sheet = Inr (Some 0)" by code_simp
  have 6: "can_write demo_env (csv_path demo_env ''early.xls'' (resolve_output_dir demo_env (Some ''out'')))"
    by (simp add: demo_env_def)
  have n: "nrows early_sheet = 6" by code_simp
  have 7: "5 < nrows early_sheet" by (simp add: n)
  have d: "resolve_output_dir demo_env (Some ''out'') = ''out''"
    by (simp add: resolve_output_dir_def)
  have c: "ncols early_sheet = 2" by (simp add: early_sheet_def)
  have p: "csv_path demo_env ''early.xls'' ''out'' = ''out/gilts_in_issue_20261104.csv''"
    by code_simp
  have 8: "io_error demo_env (csv_path demo_env ''early.xls''
             (resolve_output_dir demo_env (Some ''out''))) = None"
    by (simp add: d p) (simp add: demo_env_def)
  have s: "section_list early_sheet 0 = []" by code_simp
  have t: "output_rows early_sheet 0 =
             [[''ISIN Code'', ''Redemption Date''], [''Short'', ''x''],
              [''ISIN Code'', ''Redemption Date''], [''UK Treasury 2030'', ''GB00ABC123'']]"
    by code_simp
  show ?thesis
    using format_complete [OF 1 2 3 4 5 6 8 7, of empty_world]
    by (simp add: d p s t n c)
qed



lemma section_test_retained:
  assumes "section_test sh h i" and "\<not> is_group_label sh i" and "0 < ncols sh"
  shows "retained sh i"
  using assms label_nonempty_not_empty_row [OF section_test_label [OF assms(1)] assms(3)]
  by (simp add: retained_def)



lemma spaced_header: "locate_header spaced_sheet = Inr (Some 8)"
  by code_simp

lemma spaced_run:
  "format_gilts_csv demo_env (Some ''spaced.xls'') (Some ''out'') empty_world =
     (Returned (Some ''out/gilts_in_issue_20261104.csv''),
      empty_world\<lparr>files := (files empty_world)(''out/gilts_in_issue_20261104.csv'' \<mapsto>
                  \<lparr>quoting = QUOTE_MINIMAL, rows =
                     [[''Gilts in Issue'', []],
                      [''Total'', ''1000.5''],
                      [''ISIN Code'', ''Redemption Date''],
                      [''Notes'', []]]\<rparr>),
              stdout := stdout empty_world @
                [Converting ''spaced.xls'', Sheets 1, Dimensions 11 2,
                 FoundHeader 8 9, SectionHeaders [], Converted ''out/gilts_in_issue_20261104.csv'']\<rparr>)"
proof -
  have 1: "makedirs demo_env (resolve_output_dir demo_env (Some ''out''))"
    by (simp add: demo_env_def resolve_output_dir_def)
  have 2: "resolve_excel_file demo_env (Some ''spaced.xls'') = Inr (Some ''spaced.xls'')"
    by (simp add: resolve_excel_file_def)
  have 3: "exists demo_env ''spaced.xls''"
    by (simp add: demo_env_def)
  have 4: "open_workbook demo_env ''spaced.xls'' = Inr (spaced_sheet # [])"
    by (simp add: demo_env_def)
  have 6: "can_write demo_env (csv_path demo_env ''spaced.xls'' (resolve_output_dir demo_env (Some ''out'')))"
    by (simp add: demo_env_def)
  have n: "nrows spaced_sheet = 11" by code_simp
  have 7: "5 < nrows spaced_sheet" by (simp add: n)
  have d: "resolve_output_dir demo_env (Some ''out'') = ''out''"
    by (simp add: resolve_output_dir_def)
  have c: "ncols spaced_sheet = 2" by (simp add: spaced_sheet_def)
  have p: "csv_path demo_env ''spaced.xls'' ''out'' = ''out/gilts_in_issue_20261104.csv''"
    by code_simp
  have 8: "io_error demo_env (csv_path demo_env ''spaced.xls''
             (resolve_output_dir demo_env (Some ''out''))) = None"
    by (simp add: d p) (simp add: demo_env_def)
  have s: "section_list spaced_sheet 8 = []" by code_simp
  have t: "output_rows spaced_sheet 8 =
             [[''Gilts in Issue'', []], [''Total'', ''1000.5''],
              [''ISIN Code'', ''Redemption Date''], [''Notes'', []]]"
    by code_simp
  show ?thesis
    using format_complete [OF 1 2 3 4 spaced_header 6 8 7, of empty_world]
    by (simp add: d p s t n c)
qed



subsection \<open>The clock\<close>

lemma try_body_same_path:
  assumes "csv_path e1 f d = csv_path e2 f d"
    and "open_workbook e1 = open_workbook e2" and "can_write e1 = can_write e2"
    and "io_error e1 = io_error e2"
  shows "fst (try_body e1 f d w1) = fst (try_body e2 f d w2)
         \<and> (\<forall>p. fst (try_body e1 f d w1) = Inr (Some p)
                \<longrightarrow> files (snd (try_body e1 f d w1)) p = files (snd (try_body e2 f d w2)) p)"
  using assms
  by (auto simp: try_body_def Let_def print_def split: sum.splits option.splits prod.splits)

lemma csv_path_today:
  assumes "t1 = t2 \<or> (\<exists>d s. date_str f = Some d \<and> reformat_date en d = Some s)"
  shows "csv_path (en\<lparr>today := t1\<rparr>) f d = csv_path (en\<lparr>today := t2\<rparr>) f d"
  using assms by (auto simp: csv_path_def formatted_date_def)

subsection \<open>The two variants\<close>

lemma find_header_download_eq: "find_header_download sh is = find_header sh is"
  by (induction "is") (simp_all split: sum.splits)

lemma locate_header_download_eq: "locate_header_download sh = locate_header sh"
  by (simp add: locate_header_download_def locate_header_def find_header_download_eq)

lemma section_loop_download_eq: "section_loop_download sh h is acc = section_loop sh h is acc"
  by (induction "is" arbitrary: acc) (simp_all add: group_labels_def Let_def split: sum.splits)

lemma section_headers_download_eq: "section_headers_download sh h = section_headers sh h"
  by (simp add: section_headers_download_def section_headers_def section_loop_download_eq)

lemma process_rows_download_eq: "process_rows_download lim sh is out = process_rows lim sh is out"
  by (induction "is" arbitrary: out)
     (simp_all add: group_labels_def split: sum.splits list.splits)

lemma write_csv_download_eq: "write_csv_download lim sh h = write_csv lim sh h"
  unfolding write_csv_download_def write_csv_def process_rows_download_eq by (rule refl)

lemma try_bodies_agree:
  "fst (try_body en f d w) = fst (try_body_download en f d w)
   \<and> (\<forall>p. map_option rows (files (snd (try_body en f d w)) p)
            = map_option rows (files (snd (try_body_download en f d w)) p))
   \<and> (\<forall>p. fst (try_body en f d w) = Inr (Some p)
          \<longrightarrow> map_option quoting (files (snd (try_body en f d w)) p) = Some QUOTE_MINIMAL
              \<and> map_option quoting (files (snd (try_body_download en f d w)) p) = Some QUOTE_ALL)
   \<and> filter (\<lambda>m. \<not> is_section_message m) (stdout (snd (try_body en f d w)))
       = filter (\<lambda>m. \<not> is_section_message m) (stdout (snd (try_body_download en f d w)))"
  by (auto simp: try_body_def try_body_download_def Let_def print_def is_section_message_def
                 locate_header_download_eq section_headers_download_eq write_csv_download_eq
           split: sum.splits option.splits prod.splits)

text \<open>
  Where the second variant does not ask for \<^verbatim>\<open>glob\<close>, or has it, the two variants
  return the same value, leave files with the same rows at every path, and print the
  same lines apart from the section-header line; the file of a successful run is written
  with minimal quoting by the first and with every field quoted by the second.
\<close>

lemma variants_agree:
  assumes "ef \<noteq> None \<or> glob_imported en"
  shows
  "fst (format_gilts_csv en ef od w) = fst (format_gilts_csv_download en ef od w)
   \<and> (\<forall>p. map_option rows (files (snd (format_gilts_csv en ef od w)) p)
            = map_option rows (files (snd (format_gilts_csv_download en ef od w)) p))
   \<and> (\<forall>p. fst (format_gilts_csv en ef od w) = Returned (Some p)
          \<longrightarrow> map_option quoting (files (snd (format_gilts_csv en ef od w)) p) = Some QUOTE_MINIMAL
              \<and> map_option quoting (files (snd (format_gilts_csv_download en ef od w)) p) = Some QUOTE_ALL)
   \<and> filter (\<lambda>m. \<not> is_section_message m) (stdout (snd (format_gilts_csv en ef od w)))
       = filter (\<lambda>m. \<not> is_section_message m) (stdout (snd (format_gilts_csv_download en ef od w)))"
proof -
  have r: "resolve_excel_file_download en ef = resolve_excel_file en ef"
    using assms by (auto simp: resolve_excel_file_download_def resolve_excel_file_def split: option.splits)
  show ?thesis
  proof (cases "resolve_excel_file en ef")
    case (Inl e)
    then show ?thesis
      by (simp add: format_gilts_csv_def format_gilts_csv_download_def Let_def r)
  next
    case (Inr x)
    show ?thesis
    proof (cases x)
      case None
      with Inr show ?thesis
        by (simp add: format_gilts_csv_def format_gilts_csv_download_def Let_def r)
    next
      case (Some f)
      from try_bodies_agree [of en f "resolve_output_dir en od" "print [Converting f] w"]
      show ?thesis
        by (auto simp: format_gilts_csv_def format_gilts_csv_download_def Let_def r Inr Some print_def
                       is_section_message_def
                 split: prod.splits sum.splits)
    qed
  qed
qed

subsection \<open>Errors after the directory is made\<close>

text \<open>
  Once the directory is made and the workbook is chosen, every error is caught: the
  function returns, and a failure value comes after a line that reports it.
\<close>

lemma failure_is_reported:
  assumes "makedirs en (resolve_output_dir en od)" and "resolve_excel_file en ef = Inr x"
  shows "\<exists>r. fst (format_gilts_csv en ef od w) = Returned r
             \<and> (r = None \<longrightarrow>
                  (case last (stdout (snd (format_gilts_csv en ef od w))) of
                     NoExcelFiles \<Rightarrow> True
                   | FileNotFound f \<Rightarrow> True
                   | HeaderNotFound \<Rightarrow> True
                   | ErrorConverting e \<Rightarrow> True
                   | _ \<Rightarrow> False))"
proof (cases x)
  case None
  with assms show ?thesis
    by (simp add: format_gilts_csv_def Let_def print_def)
next
  case (Some f)
  show ?thesis
    using assms
    by (auto simp: format_gilts_csv_def Let_def Some print_def try_body_def
             split: prod.splits sum.splits option.splits)
qed

subsection \<open>The claims\<close>

text \<open>
  C2. The header locator looks at rows \<open>0\<close> to \<open>min 15 nrows - 1\<close> in ascending
  order and returns the first one whose trimmed cells have both \<^verbatim>\<open>ISIN Code\<close> and
  \<^verbatim>\<open>Redemption Date\<close> as members (equality of the trimmed cell, not containment);
  it returns none exactly when no row of that window has both, and rows from index 15 on
  have no influence on the result.
\<close>

theorem header_locator_first_match:
  "locate_header sh = Inr (find (is_header sh) [0..<min 15 (nrows sh)])
   \<and> (locate_header sh = Inr (Some i)
        \<longleftrightarrow> i < min 15 (nrows sh) \<and> is_header sh i \<and> (\<forall>k<i. \<not> is_header sh k))
   \<and> (locate_header sh = Inr None \<longleftrightarrow> (\<forall>k<min 15 (nrows sh). \<not> is_header sh k))
   \<and> locate_header (sh\<lparr>cells := take 15 (cells sh)\<rparr>) = locate_header sh"
  using locate_header_take [of sh]
  by (simp only: locate_header_find sum.inject find_upt_Some find_upt_None simp_thms)

theorem header_locator_first_match_witness:
  "locate_header demo_sheet = Inr (Some 8)
   \<and> 8 < min 15 (nrows demo_sheet) \<and> is_header demo_sheet 8 \<and> \<not> is_header demo_sheet 7
   \<and> \<not> is_header late_sheet 3 \<and> locate_header late_sheet = Inr None"
proof -
  have a: "locate_header late_sheet = Inr None" by code_simp
  have b: "(3::nat) < min 15 (nrows late_sheet)" by code_simp
  have c: "(7::nat) < 8" by simp
  show ?thesis
    using header_locator_first_match [of demo_sheet 8] header_locator_first_match [of late_sheet 0]
      demo_header a b c
    by blast
qed

text \<open>
  C3. When no row among the first 15 has both header tokens, whatever the later rows
  hold, the conversion returns the failure value after reporting that the header row
  was not found, and no file is created or changed.
\<close>

theorem no_header_in_window_fails:
  assumes "makedirs en (resolve_output_dir en od)"
    and "resolve_excel_file en ef = Inr (Some f)" and "exists en f"
    and "open_workbook en f = Inr (sh # rest)"
    and "\<forall>i<min 15 (nrows sh). \<not> is_header sh i"
  shows "format_gilts_csv en ef od w =
           (Returned None,
            w\<lparr>stdout := stdout w @
                [Converting f, Sheets (Suc (length rest)), Dimensions (nrows sh) (ncols sh),
                 HeaderNotFound]\<rparr>)
         \<and> files (snd (format_gilts_csv en ef od w)) = files w"
proof -
  have "locate_header sh = Inr None"
    using assms(5) by (simp add: locate_header_find find_upt_None)
  then show ?thesis
    using assms(1-3)
    by (simp add: format_gilts_csv_def Let_def try_body_no_header [OF assms(4)] print_def)
qed

lemma late_no_header: "\<forall>i<min 15 (nrows late_sheet). \<not> is_header late_sheet i"
proof -
  have "locate_header late_sheet = Inr None" by code_simp
  then show ?thesis by (simp add: locate_header_find find_upt_None)
qed

theorem no_header_in_window_fails_witness:
  "is_header late_sheet 20
   \<and> format_gilts_csv demo_env (Some ''late.xls'') (Some ''out'') empty_world =
       (Returned None,
        empty_world\<lparr>stdout := [Converting ''late.xls'', Sheets 1, Dimensions 21 2, HeaderNotFound]\<rparr>)
   \<and> files (snd (format_gilts_csv demo_env (Some ''late.xls'') (Some ''out'') empty_world)) = (\<lambda>p. None)"
proof -
  have 1: "makedirs demo_env (resolve_output_dir demo_env (Some ''out''))"
    by (simp add: demo_env_def resolve_output_dir_def)
  have 2: "resolve_excel_file demo_env (Some ''late.xls'') = Inr (Some ''late.xls'')"
    by (simp add: resolve_excel_file_def)
  have 3: "exists demo_env ''late.xls''"
    by (simp add: demo_env_def)
  have 4: "open_workbook demo_env ''late.xls'' = Inr (late_sheet # [])"
    by (simp add: demo_env_def)
  have h: "is_header late_sheet 20" by code_simp
  have n: "nrows late_sheet = 21" by code_simp
  have c: "ncols late_sheet = 2" by (simp add: late_sheet_def)
  show ?thesis
    using no_header_in_window_fails [OF 1 2 3 4 late_no_header, of empty_world] h
    by (simp add: n c empty_world_def)
qed

text \<open>
  C4. In every successful conversion the first output row is input row 0 trimmed, the
  second is the input row at the fixed index 5 trimmed, and the third is the located
  header row trimmed, at whatever index the header was found.
\<close>

theorem fixed_header_lines:
  assumes "format_gilts_csv en ef od w = (Returned (Some p), w')"
    and "resolve_excel_file en ef = Inr (Some f)"
    and "open_workbook en f = Inr (sh # rest)"
  shows "\<exists>h out. locate_header sh = Inr (Some h) \<and> 5 < nrows sh \<and> files w' p = Some out
           \<and> 3 \<le> length (rows out)
           \<and> rows out ! 0 = trimmed_row sh 0
           \<and> rows out ! 1 = trimmed_row sh 5
           \<and> rows out ! 2 = trimmed_row sh h"
proof -
  from assms(1) obtain f' sh' rest' h where
    "resolve_excel_file en ef = Inr (Some f')" "open_workbook en f' = Inr (sh' # rest')"
    and h: "locate_header sh' = Inr (Some h)" "5 < nrows sh'"
    and w': "w' = w\<lparr>files := (files w)(p \<mapsto> \<lparr>quoting = QUOTE_MINIMAL, rows = output_rows sh' h\<rparr>),
            stdout := stdout w @
              [Converting f', Sheets (Suc (length rest')), Dimensions (nrows sh') (ncols sh'),
               FoundHeader h (h + 1), SectionHeaders (map Suc (section_list sh' h)), Converted p]\<rparr>"
    by (rule format_success)
  with assms(2,3) have "sh' = sh" by simp
  with h w' show ?thesis
    by (simp add: output_rows_def)
qed

theorem fixed_header_lines_witness:
  "\<exists>out. files (snd (format_gilts_csv demo_env (Some ''gilts_in_issue_03-11-2026.xls'') (Some ''out'')
                       empty_world)) ''out/gilts_in_issue_20261103.csv'' = Some out
     \<and> rows out ! 0 = [''Gilts in Issue'', [], [], []]
     \<and> rows out ! 1 = [''Total'', ''1000.5'', [], []]
     \<and> rows out ! 2 = [''Conventional Gilts'', ''ISIN Code'', ''Redemption Date'', ''Coupon'']"
proof -
  have 2: "resolve_excel_file demo_env (Some ''gilts_in_issue_03-11-2026.xls'') = Inr (Some ''gilts_in_issue_03-11-2026.xls'')"
    by (simp add: resolve_excel_file_def)
  have 4: "open_workbook demo_env ''gilts_in_issue_03-11-2026.xls'' = Inr (demo_sheet # [])"
    by (simp add: demo_env_def)
  have t0: "trimmed_row demo_sheet 0 = [''Gilts in Issue'', [], [], []]" by code_simp
  have t5: "trimmed_row demo_sheet 5 = [''Total'', ''1000.5'', [], []]" by code_simp
  have t8: "trimmed_row demo_sheet 8 = [''Conventional Gilts'', ''ISIN Code'', ''Redemption Date'', ''Coupon'']"
    by code_simp
  show ?thesis
    using fixed_header_lines [OF demo_run 2 4] t0 t5 t8
    by (auto simp: demo_run demo_header)
qed

text \<open>
  C10. Every row of a successfully written output file has exactly \<open>ncols\<close> fields.
\<close>

theorem output_rectangular:
  assumes "format_gilts_csv en ef od w = (Returned (Some p), w')"
    and "resolve_excel_file en ef = Inr (Some f)"
    and "open_workbook en f = Inr (sh # rest)"
  shows "\<exists>out. files w' p = Some out \<and> (\<forall>r \<in> set (rows out). length r = ncols sh)"
proof -
  from assms(1) obtain f' sh' rest' h where
    "resolve_excel_file en ef = Inr (Some f')" "open_workbook en f' = Inr (sh' # rest')"
    and w': "w' = w\<lparr>files := (files w)(p \<mapsto> \<lparr>quoting = QUOTE_MINIMAL, rows = output_rows sh' h\<rparr>),
            stdout := stdout w @
              [Converting f', Sheets (Suc (length rest')), Dimensions (nrows sh') (ncols sh'),
               FoundHeader h (h + 1), SectionHeaders (map Suc (section_list sh' h)), Converted p]\<rparr>"
    by (rule format_success)
  with assms(2,3) have "sh' = sh" by simp
  with w' show ?thesis
    by (auto simp: output_rows_def length_trimmed_row)
qed

theorem output_rectangular_witness:
  "\<exists>out. files (snd (format_gilts_csv demo_env (Some ''gilts_in_issue_03-11-2026.xls'') (Some ''out'')
                       empty_world)) ''out/gilts_in_issue_20261103.csv'' = Some out
     \<and> map length (rows out) = [4, 4, 4, 4, 4, 4]"
proof -
  have 2: "resolve_excel_file demo_env (Some ''gilts_in_issue_03-11-2026.xls'') = Inr (Some ''gilts_in_issue_03-11-2026.xls'')"
    by (simp add: resolve_excel_file_def)
  have 4: "open_workbook demo_env ''gilts_in_issue_03-11-2026.xls'' = Inr (demo_sheet # [])"
    by (simp add: demo_env_def)
  have c: "ncols demo_sheet = 4" by (simp add: demo_sheet_def)
  have l: "length (output_rows demo_sheet 8) = 6" by (simp add: demo_output)
  have m: "map length rs = [4, 4, 4, 4, 4, 4]"
    if "length rs = 6" and "\<forall>r \<in> set rs. length r = 4" for rs :: "string list list"
  proof -
    from that(1) obtain a b c d e f where "rs = [a, b, c, d, e, f]"
      by (auto simp: length_Suc_conv eval_nat_numeral)
    with that(2) show ?thesis by simp
  qed
  show ?thesis
    using output_rectangular [OF demo_run 2 4] l
    by (auto simp: demo_run c intro: m)
qed




text \<open>
  C5, as the code has it. The claim says that a row after the header row whose first
  cell is a group label produces no line of the output. The second output line is row 5
  whatever it holds: when the header row is found above row 5 and row 5 is a group
  label, that row is written.
\<close>

theorem group_label_row_written_counterexample:
  "locate_header early_sheet = Inr (Some 0)
   \<and> label early_sheet 5 = ''Short''
   \<and> trimmed_row early_sheet 5 = [''Short'', ''x'']
   \<and> fst (format_gilts_csv demo_env (Some ''early.xls'') (Some ''out'') empty_world)
        = Returned (Some ''out/gilts_in_issue_20261104.csv'')
   \<and> map_option rows
        (files (snd (format_gilts_csv demo_env (Some ''early.xls'') (Some ''out'') empty_world))
           ''out/gilts_in_issue_20261104.csv'')
       = Some [[''ISIN Code'', ''Redemption Date''],
               [''Short'', ''x''],
               [''ISIN Code'', ''Redemption Date''],
               [''UK Treasury 2030'', ''GB00ABC123'']]"
proof -
  have 5: "locate_header early_sheet = Inr (Some 0)" by code_simp
  have l: "label early_sheet 5 = ''Short''" by code_simp
  have t: "trimmed_row early_sheet 5 = [''Short'', ''x'']" by code_simp
  show ?thesis
    by (simp add: early_run 5 l t)
qed

text \<open>
  C5, amended. For every row after the header row whose first cell trims to one of the
  four group labels, or whose cells all trim to the empty string, no line after the
  three fixed lines is that row, whatever its other cells hold, and its index is not
  recorded as a section header: the group-label test comes before the section-header
  test.
\<close>

theorem excluded_rows_not_in_data_section:
  assumes "format_gilts_csv en ef od w = (Returned (Some p), w')"
    and "resolve_excel_file en ef = Inr (Some f)"
    and "open_workbook en f = Inr (sh # rest)"
    and "locate_header sh = Inr (Some h)"
    and "h < i" and "i < nrows sh"
    and "is_group_label sh i \<or> is_empty_row sh i"
  shows "\<exists>out hs. files w' p = Some out
           \<and> drop 3 (rows out) = map (trimmed_row sh) (data_rows sh h)
           \<and> i \<notin> set (data_rows sh h)
           \<and> trimmed_row sh i \<notin> set (drop 3 (rows out))
           \<and> section_headers sh h = Inr hs \<and> i \<notin> set hs
           \<and> SectionHeaders (map Suc hs) \<in> set (stdout w')"
proof -
  from assms(1) obtain f' sh' rest' h' where
    "resolve_excel_file en ef = Inr (Some f')" "open_workbook en f' = Inr (sh' # rest')"
    and h: "locate_header sh' = Inr (Some h')"
    and w': "w' = w\<lparr>files := (files w)(p \<mapsto> \<lparr>quoting = QUOTE_MINIMAL, rows = output_rows sh' h'\<rparr>),
            stdout := stdout w @
              [Converting f', Sheets (Suc (length rest')), Dimensions (nrows sh') (ncols sh'),
               FoundHeader h' (h' + 1), SectionHeaders (map Suc (section_list sh' h')), Converted p]\<rparr>"
    by (rule format_success)
  with assms(2-4) have eq: "sh' = sh" "h' = h" by simp_all
  have c: "0 < ncols sh"
    using locate_header_Some [OF assms(4)] by simp
  have nr: "\<not> retained sh i"
    using assms(7) by (auto simp: retained_def)
  have ns: "i \<notin> set (section_list sh h)"
    using assms(7) empty_row_label [OF _ c, of i]
    by (auto simp: section_list_def section_test_def)
  show ?thesis
    using w' eq nr ns not_retained_not_written [OF nr c, of h] section_headers_located [OF assms(4)]
    by (simp add: output_rows_def data_rows_def)
qed

theorem excluded_rows_not_in_data_section_witness:
  "is_group_label demo_sheet 10
   \<and> trimmed_row demo_sheet 10 \<notin> set (drop 3 (output_rows demo_sheet 8))
   \<and> (\<exists>hs. section_headers demo_sheet 8 = Inr hs \<and> 10 \<notin> set hs)"
proof -
  let ?p = "''out/gilts_in_issue_20261103.csv''"
  have 2: "resolve_excel_file demo_env (Some ''gilts_in_issue_03-11-2026.xls'') = Inr (Some ''gilts_in_issue_03-11-2026.xls'')"
    by (simp add: resolve_excel_file_def)
  have 4: "open_workbook demo_env ''gilts_in_issue_03-11-2026.xls'' = Inr (demo_sheet # [])"
    by (simp add: demo_env_def)
  have g: "is_group_label demo_sheet 10" by code_simp
  have "(8::nat) < 10" and "10 < nrows demo_sheet" by (simp_all add: demo_nrows)
  from excluded_rows_not_in_data_section [OF demo_run 2 4 demo_header this disjI1 [OF g]]
  obtain out hs where o: "files
       (empty_world
        \<lparr>files :=
           (files empty_world)
           (''out/gilts_in_issue_20261103.csv'' \<mapsto>
              \<lparr>quoting = QUOTE_MINIMAL, rows = output_rows demo_sheet 8\<rparr>),
           stdout :=
             stdout empty_world @
             [Converting ''gilts_in_issue_03-11-2026.xls'', Sheets 1,
              Dimensions 14 4, FoundHeader 8 9, SectionHeaders [13],
              Converted ''out/gilts_in_issue_20261103.csv'']\<rparr>)
       ''out/gilts_in_issue_20261103.csv'' = Some out"
    and t: "trimmed_row demo_sheet 10 \<notin> set (drop 3 (rows out))"
    and s: "section_headers demo_sheet 8 = Inr hs" "10 \<notin> set hs"
    by blast
  from o have "rows out = output_rows demo_sheet 8" by auto
  with t s g show ?thesis by simp
qed

text \<open>
  C6, as the code has it. The claim says that a row more than one below the header row
  with a non-blank first cell and a blank second cell is recorded as a section header.
  The first cell is trimmed before it is tested, the second is tested as it is read
  (line 106): a second cell of one space is blank once trimmed and is not empty, so the
  row is written and is not recorded.
\<close>

theorem blank_second_cell_counterexample:
  "locate_header spaced_sheet = Inr (Some 8)
   \<and> label spaced_sheet 10 = ''Notes''
   \<and> \<not> is_group_label spaced_sheet 10
   \<and> cell_at spaced_sheet 10 1 = Text '' ''
   \<and> strip (str (cell_at spaced_sheet 10 1)) = []
   \<and> section_headers spaced_sheet 8 = Inr []
   \<and> fst (format_gilts_csv demo_env (Some ''spaced.xls'') (Some ''out'') empty_world)
        = Returned (Some ''out/gilts_in_issue_20261104.csv'')
   \<and> stdout (snd (format_gilts_csv demo_env (Some ''spaced.xls'') (Some ''out'') empty_world))
        = [Converting ''spaced.xls'', Sheets 1, Dimensions 11 2, FoundHeader 8 9,
           SectionHeaders [], Converted ''out/gilts_in_issue_20261104.csv'']
   \<and> map_option rows
        (files (snd (format_gilts_csv demo_env (Some ''spaced.xls'') (Some ''out'') empty_world))
           ''out/gilts_in_issue_20261104.csv'')
       = Some [[''Gilts in Issue'', []],
               [''Total'', ''1000.5''],
               [''ISIN Code'', ''Redemption Date''],
               [''Notes'', []]]"
proof -
  have l: "label spaced_sheet 10 = ''Notes''" by code_simp
  have g: "\<not> is_group_label spaced_sheet 10" by code_simp
  have c: "cell_at spaced_sheet 10 1 = Text '' ''" by code_simp
  have t: "strip (str (cell_at spaced_sheet 10 1)) = []" by code_simp
  have s: "section_headers spaced_sheet 8 = Inr []" by code_simp
  show ?thesis
    using c t by (simp add: spaced_run spaced_header l g s) (simp add: empty_world_def)
qed

text \<open>
  C6, amended. Every row more than one below the header row that is not a group-label
  row (those are classified first), and that has a non-blank first cell with a second
  cell that is empty as it is read (an empty string or a zero; a cell of spaces is not)
  or a first cell containing \<^verbatim>\<open>Index-linked\<close>, is written trimmed after the three
  fixed lines, in ascending original order, and its index is in the ascending list of
  section headers. Whether a row is written depends on \<open>retained\<close> alone, which does not
  ask the section-header test.
\<close>

theorem section_rows_retained_and_recorded:
  assumes "format_gilts_csv en ef od w = (Returned (Some p), w')"
    and "resolve_excel_file en ef = Inr (Some f)"
    and "open_workbook en f = Inr (sh # rest)"
    and "locate_header sh = Inr (Some h)"
    and "i < nrows sh"
    and "section_test sh h i"
    and "\<not> is_group_label sh i"
  shows "\<exists>out hs. files w' p = Some out
           \<and> drop 3 (rows out) = map (trimmed_row sh) (data_rows sh h)
           \<and> i \<in> set (data_rows sh h) \<and> sorted_wrt (<) (data_rows sh h)
           \<and> trimmed_row sh i \<in> set (drop 3 (rows out))
           \<and> section_headers sh h = Inr hs \<and> i \<in> set hs \<and> sorted_wrt (<) hs
           \<and> SectionHeaders (map Suc hs) \<in> set (stdout w')"
proof -
  from assms(1) obtain f' sh' rest' h' where
    "resolve_excel_file en ef = Inr (Some f')" "open_workbook en f' = Inr (sh' # rest')"
    and h: "locate_header sh' = Inr (Some h')"
    and w': "w' = w\<lparr>files := (files w)(p \<mapsto> \<lparr>quoting = QUOTE_MINIMAL, rows = output_rows sh' h'\<rparr>),
            stdout := stdout w @
              [Converting f', Sheets (Suc (length rest')), Dimensions (nrows sh') (ncols sh'),
               FoundHeader h' (h' + 1), SectionHeaders (map Suc (section_list sh' h')), Converted p]\<rparr>"
    by (rule format_success)
  with assms(2-4) have eq: "sh' = sh" "h' = h" by simp_all
  have c: "0 < ncols sh"
    using locate_header_Some [OF assms(4)] by simp
  have after: "h + 1 < i"
    using assms(6) by (simp add: section_test_def)
  have r: "retained sh i"
    using assms(6,7) c by (rule section_test_retained)
  have d: "i \<in> set (data_rows sh h)"
    using r after assms(5) by (simp add: data_rows_def)
  have s: "i \<in> set (section_list sh h)"
    using assms(5-7) after by (simp add: section_list_def)
  have so: "sorted_wrt (<) (data_rows sh h)" "sorted_wrt (<) (section_list sh h)"
    by (simp_all add: data_rows_def section_list_def sorted_upt_filter)
  have dr: "drop 3 (output_rows sh h) = map (trimmed_row sh) (data_rows sh h)"
    by (simp add: output_rows_def)
  show ?thesis
    using w' eq d s so dr section_headers_located [OF assms(4)]
    by simp
qed

theorem section_rows_retained_and_recorded_witness:
  "section_test demo_sheet 8 12 \<and> \<not> is_group_label demo_sheet 12
   \<and> trimmed_row demo_sheet 12 = [''Index-linked Gilts'', [], [], []]
   \<and> trimmed_row demo_sheet 12 \<in> set (drop 3 (output_rows demo_sheet 8))
   \<and> (\<exists>hs. section_headers demo_sheet 8 = Inr hs \<and> 12 \<in> set hs)"
proof -
  have 2: "resolve_excel_file demo_env (Some ''gilts_in_issue_03-11-2026.xls'') = Inr (Some ''gilts_in_issue_03-11-2026.xls'')"
    by (simp add: resolve_excel_file_def)
  have 4: "open_workbook demo_env ''gilts_in_issue_03-11-2026.xls'' = Inr (demo_sheet # [])"
    by (simp add: demo_env_def)
  have g: "\<not> is_group_label demo_sheet 12" by code_simp
  have st: "section_test demo_sheet 8 12" by code_simp
  have tr: "trimmed_row demo_sheet 12 = [''Index-linked Gilts'', [], [], []]" by code_simp
  have n: "12 < nrows demo_sheet" by (simp add: demo_nrows)
  from section_rows_retained_and_recorded [OF demo_run 2 4 demo_header n st g]
  obtain out hs where o: "files
       (empty_world
        \<lparr>files :=
           (files empty_world)
           (''out/gilts_in_issue_20261103.csv'' \<mapsto>
              \<lparr>quoting = QUOTE_MINIMAL, rows = output_rows demo_sheet 8\<rparr>),
           stdout :=
             stdout empty_world @
             [Converting ''gilts_in_issue_03-11-2026.xls'', Sheets 1,
              Dimensions 14 4, FoundHeader 8 9, SectionHeaders [13],
              Converted ''out/gilts_in_issue_20261103.csv'']\<rparr>)
       ''out/gilts_in_issue_20261103.csv'' = Some out"
    and t: "trimmed_row demo_sheet 12 \<in> set (drop 3 (rows out))"
    and s: "section_headers demo_sheet 8 = Inr hs" "12 \<in> set hs"
    by blast
  from o have "rows out = output_rows demo_sheet 8" by auto
  with t s g st tr show ?thesis by simp
qed

text \<open>
  C7. The conversion is a function of the document, the file name and the answers of
  the operating system: when the date of the file name parses, or the clock is the same,
  two runs return the same value and leave the same file at the returned path, whatever
  the clock says and whatever the files and the output were before.
\<close>

theorem output_independent_of_clock:
  assumes "t1 = t2 \<or> (\<exists>f d s. resolve_excel_file en ef = Inr (Some f) \<and> date_str f = Some d
                                \<and> reformat_date en d = Some s)"
  shows "fst (format_gilts_csv (en\<lparr>today := t1\<rparr>) ef od w1)
           = fst (format_gilts_csv (en\<lparr>today := t2\<rparr>) ef od w2)
         \<and> (\<forall>p. fst (format_gilts_csv (en\<lparr>today := t1\<rparr>) ef od w1) = Returned (Some p)
                \<longrightarrow> files (snd (format_gilts_csv (en\<lparr>today := t1\<rparr>) ef od w1)) p
                    = files (snd (format_gilts_csv (en\<lparr>today := t2\<rparr>) ef od w2)) p)"
proof -
  let ?e1 = "en\<lparr>today := t1\<rparr>" and ?e2 = "en\<lparr>today := t2\<rparr>"
  have d: "resolve_output_dir ?e1 od = resolve_output_dir ?e2 od"
    by (simp add: resolve_output_dir_def split: option.splits)
  have r: "resolve_excel_file ?e1 ef = resolve_excel_file en ef"
       "resolve_excel_file ?e2 ef = resolve_excel_file en ef"
    by (simp_all add: resolve_excel_file_def latest_download_def
                 split: option.splits list.splits sum.splits)
  show ?thesis
  proof (cases "resolve_excel_file en ef")
    case (Inl e)
    then show ?thesis
      by (simp add: format_gilts_csv_def Let_def r d)
  next
    case (Inr x)
    show ?thesis
    proof (cases x)
      case None
      with Inr show ?thesis
        by (simp add: format_gilts_csv_def Let_def r d)
    next
      case (Some f)
      with Inr assms have "t1 = t2 \<or> (\<exists>d s. date_str f = Some d \<and> reformat_date en d = Some s)"
        by auto
      then have "csv_path ?e1 f (resolve_output_dir ?e2 od) = csv_path ?e2 f (resolve_output_dir ?e2 od)"
        by (rule csv_path_today)
      from try_body_same_path [OF this, of "print [Converting f] w1" "print [Converting f] w2"]
      show ?thesis
        by (auto simp: format_gilts_csv_def Let_def r d Inr Some print_def split: prod.splits sum.splits)
    qed
  qed
qed

theorem output_independent_of_clock_witness:
  "fst (format_gilts_csv (demo_env\<lparr>today := ''20270101''\<rparr>)
          (Some ''gilts_in_issue_03-11-2026.xls'') (Some ''out'') empty_world)
     = Returned (Some ''out/gilts_in_issue_20261103.csv'')
   \<and> files (snd (format_gilts_csv (demo_env\<lparr>today := ''20270101''\<rparr>)
                      (Some ''gilts_in_issue_03-11-2026.xls'') (Some ''out'') empty_world))
         ''out/gilts_in_issue_20261103.csv''
       = Some \<lparr>quoting = QUOTE_MINIMAL, rows = output_rows demo_sheet 8\<rparr>"
proof -
  let ?f = "''gilts_in_issue_03-11-2026.xls''"
  have e: "demo_env\<lparr>today := ''20261104''\<rparr> = demo_env"
    by (simp add: demo_env_def)
  have ds: "date_str ?f = Some ''03-11-2026''" by code_simp
  have "resolve_excel_file demo_env (Some ?f) = Inr (Some ?f) \<and> date_str ?f = Some ''03-11-2026''
          \<and> reformat_date demo_env ''03-11-2026'' = Some ''20261103''"
    by (simp add: resolve_excel_file_def ds) (simp add: demo_env_def)
  then have h: "''20261104'' = ''20270101'' \<or> (\<exists>f d s. resolve_excel_file demo_env (Some ?f) = Inr (Some f)
                    \<and> date_str f = Some d \<and> reformat_date demo_env d = Some s)"
    by blast
  from output_independent_of_clock [OF h, of "Some ''out''" empty_world empty_world]
  show ?thesis
    by (simp add: e demo_run)
qed



text \<open>
  C9. The claim says that every error, an output directory that cannot be made among
  them, comes back as the failure value. \<^verbatim>\<open>os.makedirs\<close> is called on line 36, before
  the \<^verbatim>\<open>try\<close> of line 57: when it raises, the exception leaves the function and
  nothing is printed. Every error after the workbook is chosen is caught
  (\<open>failure_is_reported\<close>).
\<close>

theorem makedirs_failure_escapes:
  assumes "\<not> makedirs en (resolve_output_dir en od)"
  shows "format_gilts_csv en ef od w = (Raised OSError, w)"
  using assms by (simp add: format_gilts_csv_def Let_def)

theorem makedirs_failure_escapes_witness:
  "format_gilts_csv demo_env (Some ''gilts_in_issue_03-11-2026.xls'') (Some ''/proc/out'') empty_world
     = (Raised OSError, empty_world)"
proof -
  have "\<not> makedirs demo_env (resolve_output_dir demo_env (Some ''/proc/out''))"
    by (simp add: demo_env_def resolve_output_dir_def)
  then show ?thesis
    by (rule makedirs_failure_escapes)
qed

end
